theory Spec2Isabelle
  imports Main
begin

section \<open>Python values, errors and awaited actions\<close>

text \<open>
  The resolvers of \<^verbatim>\<open>prefect_server/graphql/flows.py\<close> receive a dictionary
  \<^verbatim>\<open>input\<close> of JSON-like values. A value is \<^verbatim>\<open>None\<close>, a string, a boolean or a
  dictionary (an association list); \<open>truthy\<close> is Python's truth test, the one behind
  \<^verbatim>\<open>if not version_group_id\<close> and \<^verbatim>\<open>if not input["flow_id"]\<close>.
\<close>

datatype pyval = PNone | PStr string | PBool bool | PDict "(string \<times> pyval) list"

fun truthy :: "pyval \<Rightarrow> bool" where
  "truthy PNone = False"
| "truthy (PStr s) = (s \<noteq> [])"
| "truthy (PBool b) = b"
| "truthy (PDict kvs) = (kvs \<noteq> [])"

datatype error =
    KeyError string
  | ValueError string
  | TypeError string
  | AttributeError string
  | StoreFailure string

text \<open>
  Every resolver is a coroutine over the shared store: an action takes the state and
  returns the state it leaves behind together with either the exception raised
  (\<open>Inl\<close>) or the value returned (\<open>Inr\<close>). \<open>await m k\<close> runs \<open>m\<close> and continues
  with \<open>k\<close> on its value; an exception of \<open>m\<close> skips \<open>k\<close>, and the state reached
  so far is kept.
\<close>

type_synonym ('w, 'a) action = "'w \<Rightarrow> (error + 'a) \<times> 'w"

definition return :: "'a \<Rightarrow> ('w, 'a) action" where
  "return a w = (Inr a, w)"

definition raise :: "error \<Rightarrow> ('w, 'a) action" where
  "raise err w = (Inl err, w)"

definition await :: "('w, 'a) action \<Rightarrow> ('a \<Rightarrow> ('w, 'b) action) \<Rightarrow> ('w, 'b) action" where
  "await m k w = (case m w of (Inl err, w') \<Rightarrow> (Inl err, w') | (Inr a, w') \<Rightarrow> k a w')"

text \<open>\<^verbatim>\<open>input[key]\<close> raises \<^verbatim>\<open>KeyError\<close> on a missing key; \<^verbatim>\<open>input.get(key, d)\<close> does not.\<close>

definition subscript :: "(string \<rightharpoonup> pyval) \<Rightarrow> string \<Rightarrow> error + pyval" where
  "subscript d key = (case d key of None \<Rightarrow> Inl (KeyError key) | Some v \<Rightarrow> Inr v)"

definition get_default :: "(string \<rightharpoonup> pyval) \<Rightarrow> string \<Rightarrow> pyval \<Rightarrow> pyval" where
  "get_default d key dflt = (case d key of None \<Rightarrow> dflt | Some v \<Rightarrow> v)"

text \<open>
  \<^verbatim>\<open>serialized_flow.get("name")\<close>: on a dictionary the value under the key, or
  \<^verbatim>\<open>None\<close>; any other value has no method \<^verbatim>\<open>get\<close>.
\<close>

definition dict_get :: "pyval \<Rightarrow> string \<Rightarrow> error + pyval" where
  "dict_get d key =
     (case d of
        PDict kvs \<Rightarrow> Inr (case map_of kvs key of None \<Rightarrow> PNone | Some v \<Rightarrow> v)
      | _ \<Rightarrow> Inl (AttributeError ''get''))"

section \<open>The flow store\<close>

text \<open>
  One row of the flow table, with the columns the resolver reads or filters on. The
  table is a list: its order is the order in which the store returns the rows of a
  query that asks for no ordering.
\<close>

record Flow =
  Flow_id :: string
  Flow_project_id :: pyval
  Flow_name :: pyval
  Flow_version_group_id :: pyval
  Flow_archived :: bool
  Flow_created :: nat

text \<open>The calls a resolver issues to the store, logged in the order they are issued.\<close>

datatype call =
    Call_where_name_first pyval pyval
  | Call_where_group_first pyval
  | Call_create_flow pyval pyval pyval pyval pyval pyval
  | Call_where_others_get pyval string
  | Call_archive_flow string

record world =
  flows :: "Flow list"
  calls :: "call list"

text \<open>
  What the store decides on its own: the identifier of the flow it creates, the version
  group identifier it mints when it is given none, its clock, and which operations fail
  with an I/O error.
\<close>

datatype op = Op_where_name_first | Op_where_group_first | Op_create_flow
  | Op_where_others_get | Op_archive_flow string

record env =
  new_flow_id :: string
  new_version_group_id :: string
  now :: nat
  raises :: "op \<Rightarrow> bool"

definition issue :: "call \<Rightarrow> world \<Rightarrow> world" where
  "issue c w = w\<lparr>calls := calls w @ [c]\<rparr>"

text \<open>
  The first row in descending order of \<open>created\<close>. Among rows with the same latest
  timestamp the one the table lists first is taken.
\<close>

fun latest :: "Flow list \<Rightarrow> Flow option" where
  "latest [] = None"
| "latest (f # fs) =
     (case latest fs of
        None \<Rightarrow> Some f
      | Some g \<Rightarrow> if Flow_created f < Flow_created g then Some g else Some f)"

text \<open>
  Modelled from the spec: \<^verbatim>\<open>models.Flow.where({project_id, name}).first(order_by=created desc)\<close>,
  whose code is not part of the sources; section 6 names it
  \<^verbatim>\<open>findLatestByProjectAndName(projectId, name) -> FlowRecord?\<close>, ordered by creation time
  descending, and section 4.1 makes the match an equality on both fields.
\<close>

definition Flow_where_name_first :: "env \<Rightarrow> pyval \<Rightarrow> pyval \<Rightarrow> (world, Flow option) action" where
  "Flow_where_name_first e project_id name w =
     (let w' = issue (Call_where_name_first project_id name) w in
      if raises e Op_where_name_first then (Inl (StoreFailure ''where''), w')
      else (Inr (latest (filter (\<lambda>f. Flow_project_id f = project_id \<and> Flow_name f = name)
                   (flows w))), w'))"

text \<open>
  Modelled from the spec: \<^verbatim>\<open>models.Flow.where({version_group_id}).first()\<close>, whose code
  is not part of the sources; section 6 names it \<^verbatim>\<open>existsByVersionGroupId\<close>: any row
  with that exact version group identifier, in any project, no ordering.
\<close>

definition Flow_where_group_first :: "env \<Rightarrow> pyval \<Rightarrow> (world, Flow option) action" where
  "Flow_where_group_first e version_group_id w =
     (let w' = issue (Call_where_group_first version_group_id) w in
      if raises e Op_where_group_first then (Inl (StoreFailure ''where''), w')
      else (Inr (find (\<lambda>f. Flow_version_group_id f = version_group_id) (flows w)), w'))"

text \<open>
  Modelled from the spec: the row that \<^verbatim>\<open>api.flows.create_flow\<close> adds; the code
  of that operation is not part of the sources. By section 6 the row is unarchived and
  carries the given project and version group identifier, and by section 4.1, step 1d,
  the store mints the identifier when none is given. An empty identifier counts as none
  given here, as it does for the resolver on line 37. The name of the row is the
  \<^verbatim>\<open>name\<close> field of the serialized flow.
\<close>

definition new_flow :: "env \<Rightarrow> pyval \<Rightarrow> pyval \<Rightarrow> pyval \<Rightarrow> Flow" where
  "new_flow e project_id serialized_flow version_group_id =
     \<lparr>Flow_id = new_flow_id e,
      Flow_project_id = project_id,
      Flow_name = (case dict_get serialized_flow ''name'' of Inl err \<Rightarrow> PNone | Inr n \<Rightarrow> n),
      Flow_version_group_id =
        (if truthy version_group_id then version_group_id else PStr (new_version_group_id e)),
      Flow_archived = False,
      Flow_created = now e\<rparr>"

text \<open>
  Modelled from the spec: \<^verbatim>\<open>api.flows.create_flow\<close> itself, section 6's
  \<^verbatim>\<open>create(projectId, serializedFlow, versionGroupId?, ...)\<close>. It appends the new row.
  The resolver binds the whole result of the call to \<^verbatim>\<open>flow_id\<close>, compares it with
  the \<^verbatim>\<open>id\<close> column and returns it under \<^verbatim>\<open>"id"\<close>, so the model returns the
  identifier of the new row and nothing else. Deduplication on the idempotency key
  belongs to the store and is not modelled.
\<close>

definition create_flow ::
  "env \<Rightarrow> pyval \<Rightarrow> pyval \<Rightarrow> pyval \<Rightarrow> pyval \<Rightarrow> pyval \<Rightarrow> pyval \<Rightarrow> (world, string) action" where
  "create_flow e project_id serialized_flow version_group_id set_schedule_active
       description idempotency_key w =
     (let w' = issue (Call_create_flow project_id serialized_flow version_group_id
                        set_schedule_active description idempotency_key) w in
      if raises e Op_create_flow then (Inl (StoreFailure ''create_flow''), w')
      else (Inr (new_flow_id e),
            w'\<lparr>flows := flows w' @ [new_flow e project_id serialized_flow version_group_id]\<rparr>))"

text \<open>
  Modelled from the spec: \<^verbatim>\<open>models.Flow.where({version_group_id, id: _neq, archived: False}).get({"id"})\<close>,
  whose code is not part of the sources; section 6 names it
  \<^verbatim>\<open>findUnarchivedSiblings(versionGroupId, excludeFlowId)\<close>.
\<close>

definition Flow_where_others_get :: "env \<Rightarrow> pyval \<Rightarrow> string \<Rightarrow> (world, Flow list) action" where
  "Flow_where_others_get e version_group_id flow_id w =
     (let w' = issue (Call_where_others_get version_group_id flow_id) w in
      if raises e Op_where_others_get then (Inl (StoreFailure ''where''), w')
      else (Inr (filter (\<lambda>f. Flow_version_group_id f = version_group_id \<and>
                              Flow_id f \<noteq> flow_id \<and> Flow_archived f = False)
                   (flows w)), w'))"

text \<open>
  Modelled from the spec: \<^verbatim>\<open>api.flows.archive_flow\<close>, whose code is not part of the
  sources. Section 6: \<^verbatim>\<open>archive(flowId) -> bool\<close> sets the \<^verbatim>\<open>archived\<close> flag of the
  row with that identifier and returns whether there was one.
\<close>

definition archive_flow :: "env \<Rightarrow> string \<Rightarrow> (world, bool) action" where
  "archive_flow e flow_id w =
     (let w' = issue (Call_archive_flow flow_id) w in
      if raises e (Op_archive_flow flow_id) then (Inl (StoreFailure ''archive_flow''), w')
      else (Inr (list_ex (\<lambda>f. Flow_id f = flow_id) (flows w)),
            w'\<lparr>flows := map (\<lambda>f. if Flow_id f = flow_id then f\<lparr>Flow_archived := True\<rparr> else f)
                           (flows w')\<rparr>))"

section \<open>\<^verbatim>\<open>resolve_create_flow\<close>\<close>

text \<open>
  The resolver is translated in three pieces, in the order of the source: the
  resolution of the version group (lines 34 to 55), the loop that archives a list of
  versions (lines 78 and 79) with the query around it (lines 66 to 76), and the
  function itself, which reads the input, checks the project and runs resolution,
  creation and archiving in sequence.

  Lines 34 to 55: the version group of the submission. The source keeps the outcome in
  the two local variables \<^verbatim>\<open>version_group_id\<close> and \<^verbatim>\<open>new_version_group\<close>; the
  action returns both. (The source never reads \<^verbatim>\<open>new_version_group\<close> again: what
  follows depends on \<^verbatim>\<open>version_group_id\<close> alone.)
\<close>

definition resolve_version_group ::
  "env \<Rightarrow> pyval \<Rightarrow> pyval \<Rightarrow> pyval \<Rightarrow> (world, pyval \<times> bool) action" where
  "resolve_version_group e project_id serialized_flow version_group_id =
     (if \<not> truthy version_group_id then
        (case dict_get serialized_flow ''name'' of
           Inl err \<Rightarrow> raise err
         | Inr name \<Rightarrow>
             await (Flow_where_name_first e project_id name) (\<lambda>flow.
               case flow of
                 Some f \<Rightarrow> return (Flow_version_group_id f, False)
               | None \<Rightarrow> return (version_group_id, True)))
      else
        await (Flow_where_group_first e version_group_id) (\<lambda>flow.
          case flow of
            Some f \<Rightarrow> return (version_group_id, False)
          | None \<Rightarrow> return (version_group_id, True)))"

text \<open>Lines 78 and 79: the loop over the other unarchived versions.\<close>

fun archive_versions :: "env \<Rightarrow> Flow list \<Rightarrow> (world, unit) action" where
  "archive_versions e [] = return ()"
| "archive_versions e (version # rest) =
     await (archive_flow e (Flow_id version)) (\<lambda>_. archive_versions e rest)"

text \<open>Lines 66 to 79: archive all other versions.\<close>

definition archive_other_versions :: "env \<Rightarrow> pyval \<Rightarrow> string \<Rightarrow> (world, unit) action" where
  "archive_other_versions e version_group_id flow_id =
     (if truthy version_group_id then
        await (Flow_where_others_get e version_group_id flow_id) (archive_versions e)
      else return ())"

definition resolve_create_flow :: "env \<Rightarrow> (string \<rightharpoonup> pyval) \<Rightarrow> (world, pyval) action" where
  "resolve_create_flow e input =
     (case subscript input ''serialized_flow'' of
        Inl err \<Rightarrow> raise err
      | Inr serialized_flow \<Rightarrow>
     (case subscript input ''project_id'' of
        Inl err \<Rightarrow> raise err
      | Inr project_id \<Rightarrow>
     (let version_group_id = get_default input ''version_group_id'' PNone;
          set_schedule_active = get_default input ''set_schedule_active'' (PBool True);
          description = get_default input ''description'' PNone;
          idempotency_key = get_default input ''idempotency_key'' PNone
      in
        if project_id = PNone then raise (ValueError ''Invalid project ID'')
        else
          await (resolve_version_group e project_id serialized_flow version_group_id)
            (\<lambda>(version_group_id, new_version_group).
          await (create_flow e project_id serialized_flow version_group_id
                   set_schedule_active description idempotency_key)
            (\<lambda>flow_id.
          await (archive_other_versions e version_group_id flow_id)
            (\<lambda>_. return (PDict [(''id'', PStr flow_id)])))))))"

text \<open>
  \<^verbatim>\<open>resolve_create_flow_from_compressed_string\<close>: \<^verbatim>\<open>decompress\<close> is imported from
  elsewhere and is a parameter here, \<open>None\<close> when it raises. The bare \<^verbatim>\<open>except\<close> also
  catches the missing key.
\<close>

definition resolve_create_flow_from_compressed_string ::
  "(pyval \<Rightarrow> pyval option) \<Rightarrow> env \<Rightarrow> (string \<rightharpoonup> pyval) \<Rightarrow> (world, pyval) action" where
  "resolve_create_flow_from_compressed_string decompress e input =
     (case subscript input ''serialized_flow'' of
        Inl err \<Rightarrow> raise (TypeError ''Unable to decompress serialized flow'')
      | Inr compressed \<Rightarrow>
          (case decompress compressed of
             None \<Rightarrow> raise (TypeError ''Unable to decompress serialized flow'')
           | Some serialized_flow \<Rightarrow>
               resolve_create_flow e (input(''serialized_flow'' \<mapsto> serialized_flow))))"

section \<open>The pass-through resolvers\<close>

text \<open>
  The remaining resolvers hand their arguments to one operation of \<^verbatim>\<open>api.flows\<close> or
  \<^verbatim>\<open>api.flow_groups\<close>. The code of these operations is not part of the sources, and
  nothing here depends on what they do: each is a parameter, an action on a state of
  any type that takes the keyword arguments in the order the source writes them.
\<close>

definition resolve_register_tasks ::
  "(pyval \<Rightarrow> pyval \<Rightarrow> pyval \<Rightarrow> ('w, 'a) action) \<Rightarrow> (string \<rightharpoonup> pyval) \<Rightarrow> ('w, pyval) action" where
  "resolve_register_tasks register_tasks input =
     (case subscript input ''serialized_tasks'' of
        Inl err \<Rightarrow> raise err
      | Inr serialized_tasks \<Rightarrow>
     (case subscript input ''flow_id'' of
        Inl err \<Rightarrow> raise err
      | Inr flow_id \<Rightarrow>
          if flow_id = PNone then raise (ValueError ''Invalid flow ID'')
          else await (register_tasks flow_id PNone serialized_tasks)
                 (\<lambda>_. return (PDict [(''success'', PBool True)]))))"

definition resolve_register_edges ::
  "(pyval \<Rightarrow> pyval \<Rightarrow> pyval \<Rightarrow> ('w, 'a) action) \<Rightarrow> (string \<rightharpoonup> pyval) \<Rightarrow> ('w, pyval) action" where
  "resolve_register_edges register_edges input =
     (case subscript input ''serialized_edges'' of
        Inl err \<Rightarrow> raise err
      | Inr serialized_edges \<Rightarrow>
     (case subscript input ''flow_id'' of
        Inl err \<Rightarrow> raise err
      | Inr flow_id \<Rightarrow>
          if flow_id = PNone then raise (ValueError ''Invalid flow ID'')
          else await (register_edges flow_id PNone serialized_edges)
                 (\<lambda>_. return (PDict [(''success'', PBool True)]))))"

definition resolve_delete_flow ::
  "(pyval \<Rightarrow> ('w, pyval) action) \<Rightarrow> (string \<rightharpoonup> pyval) \<Rightarrow> ('w, pyval) action" where
  "resolve_delete_flow delete_flow input =
     (case subscript input ''flow_id'' of
        Inl err \<Rightarrow> raise err
      | Inr flow_id \<Rightarrow>
          await (delete_flow flow_id) (\<lambda>r. return (PDict [(''success'', r)])))"

definition resolve_archive_flow ::
  "(pyval \<Rightarrow> ('w, pyval) action) \<Rightarrow> (string \<rightharpoonup> pyval) \<Rightarrow> ('w, pyval) action" where
  "resolve_archive_flow api_archive_flow input =
     (case subscript input ''flow_id'' of
        Inl err \<Rightarrow> raise err
      | Inr flow_id \<Rightarrow>
          await (api_archive_flow flow_id) (\<lambda>r. return (PDict [(''success'', r)])))"

definition resolve_update_flow_project ::
  "(pyval \<Rightarrow> pyval \<Rightarrow> ('w, pyval) action) \<Rightarrow> (string \<rightharpoonup> pyval) \<Rightarrow> ('w, pyval) action" where
  "resolve_update_flow_project update_flow_project input =
     (case subscript input ''flow_id'' of
        Inl err \<Rightarrow> raise err
      | Inr flow_id \<Rightarrow>
     (case subscript input ''project_id'' of
        Inl err \<Rightarrow> raise err
      | Inr project_id \<Rightarrow>
          await (update_flow_project flow_id project_id)
            (\<lambda>r. return (PDict [(''id'', r)]))))"

text \<open>
  The four toggles of a flow group first read the flow:
  \<^verbatim>\<open>models.Flow.where(id=...).first({"flow_group_id"})\<close> is the parameter
  \<open>where_id_first\<close>, which returns the \<^verbatim>\<open>flow_group_id\<close> of the flow, or \<open>None\<close>
  when there is no such flow.
\<close>

definition resolve_disable_heartbeat_for_flow ::
  "(pyval \<Rightarrow> ('w, pyval option) action) \<Rightarrow> (pyval \<Rightarrow> ('w, pyval) action) \<Rightarrow>
   (string \<rightharpoonup> pyval) \<Rightarrow> ('w, pyval) action" where
  "resolve_disable_heartbeat_for_flow where_id_first disable_heartbeat input =
     (case subscript input ''flow_id'' of
        Inl err \<Rightarrow> raise err
      | Inr flow_id \<Rightarrow>
          if \<not> truthy flow_id then raise (ValueError ''Invalid flow ID.'')
          else await (where_id_first flow_id) (\<lambda>flow.
            case flow of
              None \<Rightarrow> raise (ValueError ''Invalid flow ID.'')
            | Some flow_group_id \<Rightarrow>
                await (disable_heartbeat flow_group_id)
                  (\<lambda>success. return (PDict [(''success'', success)]))))"

definition resolve_enable_heartbeat_for_flow ::
  "(pyval \<Rightarrow> ('w, pyval option) action) \<Rightarrow> (pyval \<Rightarrow> ('w, pyval) action) \<Rightarrow>
   (string \<rightharpoonup> pyval) \<Rightarrow> ('w, pyval) action" where
  "resolve_enable_heartbeat_for_flow where_id_first enable_heartbeat input =
     (case subscript input ''flow_id'' of
        Inl err \<Rightarrow> raise err
      | Inr flow_id \<Rightarrow>
          if \<not> truthy flow_id then raise (ValueError ''Invalid flow ID.'')
          else await (where_id_first flow_id) (\<lambda>flow.
            case flow of
              None \<Rightarrow> raise (ValueError ''Invalid flow ID.'')
            | Some flow_group_id \<Rightarrow>
                await (enable_heartbeat flow_group_id)
                  (\<lambda>success. return (PDict [(''success'', success)]))))"

definition resolve_enable_flow_lazarus_process ::
  "(pyval \<Rightarrow> ('w, pyval option) action) \<Rightarrow> (pyval \<Rightarrow> ('w, pyval) action) \<Rightarrow>
   (string \<rightharpoonup> pyval) \<Rightarrow> ('w, pyval) action" where
  "resolve_enable_flow_lazarus_process where_id_first enable_lazarus input =
     (case subscript input ''flow_id'' of
        Inl err \<Rightarrow> raise err
      | Inr flow_id \<Rightarrow>
          if \<not> truthy flow_id then raise (ValueError ''Invalid flow ID.'')
          else await (where_id_first flow_id) (\<lambda>flow.
            case flow of
              None \<Rightarrow> raise (ValueError ''Invalid flow ID.'')
            | Some flow_group_id \<Rightarrow>
                await (enable_lazarus flow_group_id)
                  (\<lambda>r. return (PDict [(''success'', r)]))))"

definition resolve_disable_flow_lazarus_process ::
  "(pyval \<Rightarrow> ('w, pyval option) action) \<Rightarrow> (pyval \<Rightarrow> ('w, pyval) action) \<Rightarrow>
   (string \<rightharpoonup> pyval) \<Rightarrow> ('w, pyval) action" where
  "resolve_disable_flow_lazarus_process where_id_first disable_lazarus input =
     (case subscript input ''flow_id'' of
        Inl err \<Rightarrow> raise err
      | Inr flow_id \<Rightarrow>
          if \<not> truthy flow_id then raise (ValueError ''Invalid flow ID.'')
          else await (where_id_first flow_id) (\<lambda>flow.
            case flow of
              None \<Rightarrow> raise (ValueError ''Invalid flow ID.'')
            | Some flow_group_id \<Rightarrow>
                await (disable_lazarus flow_group_id)
                  (\<lambda>r. return (PDict [(''success'', r)]))))"

definition resolve_set_schedule_active ::
  "(pyval \<Rightarrow> ('w, pyval) action) \<Rightarrow> (string \<rightharpoonup> pyval) \<Rightarrow> ('w, pyval) action" where
  "resolve_set_schedule_active set_schedule_active input =
     (case subscript input ''flow_id'' of
        Inl err \<Rightarrow> raise err
      | Inr flow_id \<Rightarrow>
          await (set_schedule_active flow_id) (\<lambda>r. return (PDict [(''success'', r)])))"

definition resolve_set_schedule_inactive ::
  "(pyval \<Rightarrow> ('w, pyval) action) \<Rightarrow> (string \<rightharpoonup> pyval) \<Rightarrow> ('w, pyval) action" where
  "resolve_set_schedule_inactive set_schedule_inactive input =
     (case subscript input ''flow_id'' of
        Inl err \<Rightarrow> raise err
      | Inr flow_id \<Rightarrow>
          await (set_schedule_inactive flow_id) (\<lambda>r. return (PDict [(''success'', r)])))"


section \<open>Observing a run\<close>

text \<open>The calls issued between a state and a later one.\<close>

definition issued :: "world \<Rightarrow> world \<Rightarrow> call list" where
  "issued w w' = drop (length (calls w)) (calls w')"

text \<open>
  What a pass-through resolver makes of the outcome of the operation it delegates to:
  an exception propagates, a result \<open>r\<close> is returned as the dictionary \<open>{key: r}\<close>.
\<close>

definition delegated :: "string \<Rightarrow> (error + pyval) \<times> 'w \<Rightarrow> (error + pyval) \<times> 'w" where
  "delegated key out =
     (case out of (Inl err, w') \<Rightarrow> (Inl err, w') | (Inr r, w') \<Rightarrow> (Inr (PDict [(key, r)]), w'))"

section \<open>A small store\<close>

text \<open>
  Project \<open>P1\<close> holds two versions named \<open>etl\<close>: an archived one in group \<open>G0\<close> and,
  registered after it, an unarchived one in group \<open>G1\<close>. Project \<open>P2\<close> holds an
  unarchived flow \<open>report\<close> that is in group \<open>G1\<close> as well.
\<close>

definition F0 :: Flow where
  "F0 = \<lparr>Flow_id = ''F0'', Flow_project_id = PStr ''P1'', Flow_name = PStr ''etl'',
          Flow_version_group_id = PStr ''G0'', Flow_archived = True, Flow_created = 0\<rparr>"

definition F1 :: Flow where
  "F1 = \<lparr>Flow_id = ''F1'', Flow_project_id = PStr ''P1'', Flow_name = PStr ''etl'',
          Flow_version_group_id = PStr ''G1'', Flow_archived = False, Flow_created = 1\<rparr>"

definition R1 :: Flow where
  "R1 = \<lparr>Flow_id = ''R1'', Flow_project_id = PStr ''P2'', Flow_name = PStr ''report'',
          Flow_version_group_id = PStr ''G1'', Flow_archived = False, Flow_created = 2\<rparr>"

definition store1 :: world where
  "store1 = \<lparr>flows = [F0, F1, R1], calls = []\<rparr>"

definition env1 :: env where
  "env1 = \<lparr>new_flow_id = ''F2'', new_version_group_id = ''G2'', now = 3, raises = (\<lambda>_. False)\<rparr>"

definition submission :: "pyval \<Rightarrow> pyval \<Rightarrow> (string \<rightharpoonup> pyval)" where
  "submission name project_id =
     [''serialized_flow'' \<mapsto> PDict [(''name'', name)], ''project_id'' \<mapsto> project_id]"

text \<open>The same store when archiving \<open>F1\<close>, or archiving \<open>R1\<close>, fails.\<close>

definition env_F1_fails :: env where
  "env_F1_fails = env1\<lparr>raises := (\<lambda>op. op = Op_archive_flow ''F1'')\<rparr>"

definition env_R1_fails :: env where
  "env_R1_fails = env1\<lparr>raises := (\<lambda>op. op = Op_archive_flow ''R1'')\<rparr>"

text \<open>
  A stand-in for an operation of \<^verbatim>\<open>api.flows\<close>: it records its argument in the state
  and reports success.
\<close>

definition recording :: "pyval \<Rightarrow> (pyval list, pyval) action" where
  "recording arg w = (Inr (PBool True), w @ [arg])"

lemmas example_defs = F0_def F1_def R1_def store1_def env1_def submission_def

lemmas store_defs = Flow_where_name_first_def Flow_where_group_first_def create_flow_def
  new_flow_def Flow_where_others_get_def archive_flow_def issue_def

lemmas resolver_defs = resolve_create_flow_def resolve_version_group_def
  archive_other_versions_def subscript_def get_default_def dict_get_def
  await_def return_def raise_def Let_def


section \<open>Facts about actions and the store\<close>

lemma await_Inr_elim:
  assumes "await m k w = (Inr b, w')"
  obtains a w1 where "m w = (Inr a, w1)" and "k a w1 = (Inr b, w')"
  using assms by (auto simp: await_def split: prod.splits sum.splits)

lemma latest_None: "latest fs = None \<longleftrightarrow> fs = []"
  by (induction fs) (auto split: option.splits)

lemma latest_Some:
  "latest fs = Some f \<Longrightarrow> f \<in> set fs \<and> (\<forall>g \<in> set fs. Flow_created g \<le> Flow_created f)"
proof (induction fs arbitrary: f)
  case Nil
  then show ?case by simp
next
  case (Cons a fs)
  show ?case
  proof (cases "latest fs")
    case None
    then have "fs = []" by (simp add: latest_None)
    with Cons.prems show ?thesis by simp
  next
    case (Some g)
    from Cons.IH [OF Some] have g: "g \<in> set fs" "\<forall>h \<in> set fs. Flow_created h \<le> Flow_created g"
      by auto
    show ?thesis
    proof (cases "Flow_created a < Flow_created g")
      case True
      with Some Cons.prems have "f = g" by simp
      with g True show ?thesis by auto
    next
      case False
      with Some Cons.prems have "f = a" by simp
      with g False show ?thesis by (auto intro: order_trans)
    qed
  qed
qed

lemma archive_versions_ok:
  assumes "\<forall>v \<in> set vs. \<not> raises e (Op_archive_flow (Flow_id v))"
  shows "archive_versions e vs w =
           (Inr (), w\<lparr>flows := map (\<lambda>f. if Flow_id f \<in> Flow_id ` set vs
                                        then f\<lparr>Flow_archived := True\<rparr> else f) (flows w),
                     calls := calls w @ map (\<lambda>v. Call_archive_flow (Flow_id v)) vs\<rparr>)"
  using assms
proof (induction vs arbitrary: w)
  case Nil
  then show ?case by (simp add: return_def)
next
  case (Cons v vs)
  have step: "archive_flow e (Flow_id v) w =
      (Inr (list_ex (\<lambda>f. Flow_id f = Flow_id v) (flows w)),
       w\<lparr>flows := map (\<lambda>f. if Flow_id f = Flow_id v then f\<lparr>Flow_archived := True\<rparr> else f) (flows w),
         calls := calls w @ [Call_archive_flow (Flow_id v)]\<rparr>)"
    using Cons.prems by (simp add: archive_flow_def issue_def)
  have rest: "\<forall>v \<in> set vs. \<not> raises e (Op_archive_flow (Flow_id v))"
    using Cons.prems by simp
  show ?case
    by (simp add: await_def step Cons.IH [OF rest] image_iff)
qed

lemma archive_versions_Inr:
  "archive_versions e vs w = (Inr u, w') \<Longrightarrow> \<forall>v \<in> set vs. \<not> raises e (Op_archive_flow (Flow_id v))"
proof (induction vs arbitrary: w)
  case Nil
  then show ?case by simp
next
  case (Cons v vs)
  from Cons.prems obtain b w1 where
    a: "archive_flow e (Flow_id v) w = (Inr b, w1)" and r: "archive_versions e vs w1 = (Inr u, w')"
    by (auto elim: await_Inr_elim)
  from a have "\<not> raises e (Op_archive_flow (Flow_id v))"
    by (auto simp: archive_flow_def Let_def split: if_splits)
  with Cons.IH [OF r] show ?case by simp
qed

lemma archive_versions_stops:
  assumes "\<forall>v \<in> set pre. \<not> raises e (Op_archive_flow (Flow_id v))"
    and "raises e (Op_archive_flow (Flow_id a))"
  shows "archive_versions e (pre @ a # post) w =
           (Inl (StoreFailure ''archive_flow''),
            w\<lparr>flows := map (\<lambda>f. if Flow_id f \<in> Flow_id ` set pre
                               then f\<lparr>Flow_archived := True\<rparr> else f) (flows w),
              calls := calls w @ map (\<lambda>v. Call_archive_flow (Flow_id v)) (pre @ [a])\<rparr>)"
  using assms
proof (induction pre arbitrary: w)
  case Nil
  then show ?case by (simp add: await_def archive_flow_def issue_def)
next
  case (Cons v pre)
  have step: "archive_flow e (Flow_id v) w =
      (Inr (list_ex (\<lambda>f. Flow_id f = Flow_id v) (flows w)),
       w\<lparr>flows := map (\<lambda>f. if Flow_id f = Flow_id v then f\<lparr>Flow_archived := True\<rparr> else f) (flows w),
         calls := calls w @ [Call_archive_flow (Flow_id v)]\<rparr>)"
    using Cons.prems by (simp add: archive_flow_def issue_def)
  have rest: "\<forall>v \<in> set pre. \<not> raises e (Op_archive_flow (Flow_id v))"
    using Cons.prems by simp
  show ?case
    by (simp add: await_def step Cons.IH [OF rest Cons.prems(2)] image_iff)
qed



lemma resolve_version_group_unset:
  assumes "\<not> truthy v" and "dict_get sf ''name'' = Inr name"
    and "\<not> raises e Op_where_name_first"
  shows "resolve_version_group e pid sf v w =
           (Inr (case latest (filter (\<lambda>f. Flow_project_id f = pid \<and> Flow_name f = name) (flows w)) of
                   Some f \<Rightarrow> (Flow_version_group_id f, False)
                 | None \<Rightarrow> (v, True)),
            issue (Call_where_name_first pid name) w)"
  using assms
  by (simp add: resolve_version_group_def await_def Flow_where_name_first_def return_def
      split: option.splits)

lemma resolve_version_group_set:
  assumes "truthy v" and "\<not> raises e Op_where_group_first"
  shows "resolve_version_group e pid sf v w =
           (Inr (v, find (\<lambda>f. Flow_version_group_id f = v) (flows w) = None),
            issue (Call_where_group_first v) w)"
  using assms
  by (simp add: resolve_version_group_def await_def Flow_where_group_first_def return_def
      split: option.splits)

section \<open>Resolution of the version group\<close>

text \<open>
  Claim C5. A submission without a version group identifier whose flow name matches at
  least one flow of the same project, archived or not, reuses a version group: the
  query by project and name is the only call issued, and resolution returns the version
  group identifier of a matching flow that no matching flow exceeds in \<open>created\<close>,
  with \<^verbatim>\<open>new_version_group = False\<close>.
\<close>

theorem reuse_latest_group_by_name:
  assumes unset: "\<not> truthy version_group_id"
    and name: "dict_get serialized_flow ''name'' = Inr name"
    and store: "\<not> raises e Op_where_name_first"
    and match: "\<exists>f \<in> set (flows w). Flow_project_id f = project_id \<and> Flow_name f = name"
  shows "\<exists>f \<in> set (flows w).
           Flow_project_id f = project_id \<and> Flow_name f = name \<and>
           (\<forall>g \<in> set (flows w). Flow_project_id g = project_id \<and> Flow_name g = name
                \<longrightarrow> Flow_created g \<le> Flow_created f) \<and>
           resolve_version_group e project_id serialized_flow version_group_id w =
             (Inr (Flow_version_group_id f, False), issue (Call_where_name_first project_id name) w)"
proof -
  let ?cands = "filter (\<lambda>f. Flow_project_id f = project_id \<and> Flow_name f = name) (flows w)"
  from match have "?cands \<noteq> []" by (auto simp: filter_empty_conv)
  then obtain f where f: "latest ?cands = Some f"
    by (cases "latest ?cands") (auto simp: latest_None)
  from latest_Some [OF f] have "f \<in> set ?cands" "\<forall>g \<in> set ?cands. Flow_created g \<le> Flow_created f"
    by auto
  moreover have "resolve_version_group e project_id serialized_flow version_group_id w =
             (Inr (Flow_version_group_id f, False), issue (Call_where_name_first project_id name) w)"
    by (simp add: resolve_version_group_unset [OF unset name store] f)
  ultimately show ?thesis by auto
qed

text \<open>
  The store of the example: the latest \<open>etl\<close> of project \<open>P1\<close> is \<open>F1\<close>, so group
  \<open>G1\<close> is reused and not the older \<open>G0\<close>.
\<close>

theorem reuse_latest_group_by_name_witness:
  "\<not> truthy PNone \<and>
   dict_get (PDict [(''name'', PStr ''etl'')]) ''name'' = Inr (PStr ''etl'') \<and>
   \<not> raises env1 Op_where_name_first \<and>
   resolve_version_group env1 (PStr ''P1'') (PDict [(''name'', PStr ''etl'')]) PNone store1 =
     (Inr (PStr ''G1'', False), issue (Call_where_name_first (PStr ''P1'') (PStr ''etl'')) store1)"
proof -
  have unset: "\<not> truthy PNone" by simp
  have name: "dict_get (PDict [(''name'', PStr ''etl'')]) ''name'' = Inr (PStr ''etl'')"
    by (simp add: dict_get_def)
  have store: "\<not> raises env1 Op_where_name_first" by (simp add: env1_def)
  have match: "\<exists>f \<in> set (flows store1). Flow_project_id f = PStr ''P1'' \<and> Flow_name f = PStr ''etl''"
    by (simp add: example_defs)
  from reuse_latest_group_by_name [OF unset name store match]
  have "resolve_version_group env1 (PStr ''P1'') (PDict [(''name'', PStr ''etl'')]) PNone store1 =
     (Inr (PStr ''G1'', False), issue (Call_where_name_first (PStr ''P1'') (PStr ''etl'')) store1)"
    by (auto simp: F0_def F1_def R1_def store1_def)
  with unset name store show ?thesis by simp
qed

text \<open>
  Claim C6. A submission with a set (non-empty) version group identifier keeps it, and
  \<^verbatim>\<open>new_version_group\<close> is true exactly when no stored flow, in whatever project, has
  that version group identifier; the existence query is the only call issued.
\<close>

theorem explicit_group_honored:
  assumes "truthy version_group_id" and "\<not> raises e Op_where_group_first"
  shows "resolve_version_group e project_id serialized_flow version_group_id w =
           (Inr (version_group_id, \<not> (\<exists>f \<in> set (flows w). Flow_version_group_id f = version_group_id)),
            issue (Call_where_group_first version_group_id) w)"
  using assms
  by (auto simp: resolve_version_group_set find_None_iff)


text \<open>
  Group \<open>G1\<close> exists (seen from a project that holds none of its flows); group
  \<open>G-unknown\<close> does not.
\<close>

theorem explicit_group_honored_witness:
  "truthy (PStr ''G1'') \<and> \<not> raises env1 Op_where_group_first \<and>
   resolve_version_group env1 (PStr ''P3'') (PDict [(''name'', PStr ''etl'')]) (PStr ''G1'') store1 =
     (Inr (PStr ''G1'', False), issue (Call_where_group_first (PStr ''G1'')) store1) \<and>
   resolve_version_group env1 (PStr ''P1'') (PDict [(''name'', PStr ''etl'')]) (PStr ''G-unknown'') store1 =
     (Inr (PStr ''G-unknown'', True), issue (Call_where_group_first (PStr ''G-unknown'')) store1)"
proof -
  have store: "\<not> raises env1 Op_where_group_first" by (simp add: env1_def)
  have known: "truthy (PStr ''G1'')" and unknown: "truthy (PStr ''G-unknown'')" by simp_all
  from explicit_group_honored [OF known store, of "PStr ''P3''" "PDict [(''name'', PStr ''etl'')]" store1]
    explicit_group_honored [OF unknown store, of "PStr ''P1''" "PDict [(''name'', PStr ''etl'')]" store1]
    known store
  show ?thesis by (simp add: F0_def F1_def R1_def store1_def)
qed


section \<open>Creation and supersession\<close>

lemma resolve_version_group_flows:
  "resolve_version_group e pid sf v w = (res, w1) \<Longrightarrow> flows w1 = flows w"
  by (auto simp: resolve_version_group_def await_def return_def raise_def issue_def Let_def
      Flow_where_name_first_def Flow_where_group_first_def
      split: if_splits sum.splits option.splits)

lemma create_flow_Inr:
  assumes "create_flow e pid sf g s d k w1 = (Inr fid, w2)"
  shows "fid = new_flow_id e" and "flows w2 = flows w1 @ [new_flow e pid sf g]"
    and "calls w2 = calls w1 @ [Call_create_flow pid sf g s d k]"
  using assms by (auto simp: create_flow_def issue_def Let_def split: if_splits)

lemma archive_other_versions_Inr:
  assumes "archive_other_versions e g fid w2 = (Inr u, w3)"
  shows "flows w3 =
     (if truthy g then
        map (\<lambda>f. if Flow_id f \<in> Flow_id ` set (filter (\<lambda>f. Flow_version_group_id f = g \<and>
                       Flow_id f \<noteq> fid \<and> Flow_archived f = False) (flows w2))
                  then f\<lparr>Flow_archived := True\<rparr> else f) (flows w2)
      else flows w2)"
proof (cases "truthy g")
  case False
  with assms show ?thesis by (simp add: archive_other_versions_def return_def)
next
  case True
  let ?vs = "filter (\<lambda>f. Flow_version_group_id f = g \<and> Flow_id f \<noteq> fid \<and> Flow_archived f = False)
               (flows w2)"
  let ?w = "issue (Call_where_others_get g fid) w2"
  from assms True have query: "\<not> raises e Op_where_others_get"
    and loop: "archive_versions e ?vs ?w = (Inr u, w3)"
    by (auto simp: archive_other_versions_def await_def Flow_where_others_get_def Let_def
        split: if_splits)
  have "\<forall>v \<in> set ?vs. \<not> raises e (Op_archive_flow (Flow_id v))"
    by (rule archive_versions_Inr [OF loop])
  from archive_versions_ok [OF this, of ?w] loop have "w3 =
      ?w\<lparr>flows := map (\<lambda>f. if Flow_id f \<in> Flow_id ` set ?vs
                             then f\<lparr>Flow_archived := True\<rparr> else f) (flows ?w),
         calls := calls ?w @ map (\<lambda>v. Call_archive_flow (Flow_id v)) ?vs\<rparr>"
    by simp
  then have "flows w3 =
      map (\<lambda>f. if Flow_id f \<in> Flow_id ` set ?vs then f\<lparr>Flow_archived := True\<rparr> else f) (flows w2)"
    by (simp add: issue_def)
  with True show ?thesis by simp
qed

lemma filter_map_empty: "(\<And>x. x \<in> set xs \<Longrightarrow> \<not> P (h x)) \<Longrightarrow> filter P (map h xs) = []"
  by (induction xs) auto

lemma only_new_flow_unarchived:
  assumes fresh: "Flow_id new \<notin> Flow_id ` set fs"
    and new: "Flow_version_group_id new = g" "\<not> Flow_archived new"
  shows "filter (\<lambda>f. Flow_version_group_id f = g \<and> \<not> Flow_archived f)
           (map (\<lambda>f. if Flow_id f \<in> Flow_id ` set (filter (\<lambda>f. Flow_version_group_id f = g \<and>
                          Flow_id f \<noteq> Flow_id new \<and> Flow_archived f = False) (fs @ [new]))
                     then f\<lparr>Flow_archived := True\<rparr> else f) (fs @ [new])) = [new]"
proof -
  let ?others = "filter (\<lambda>f. Flow_version_group_id f = g \<and> Flow_id f \<noteq> Flow_id new \<and>
                    Flow_archived f = False) (fs @ [new])"
  let ?h = "\<lambda>f. if Flow_id f \<in> Flow_id ` set ?others then f\<lparr>Flow_archived := True\<rparr> else f"
  let ?P = "\<lambda>f. Flow_version_group_id f = g \<and> \<not> Flow_archived f"
  have kept: "?h new = new" by auto
  have old: "\<not> ?P (?h f)" if "f \<in> set fs" for f
  proof (cases "?P f")
    case True
    from that have "Flow_id f \<in> Flow_id ` set fs" by (rule imageI)
    with fresh have "Flow_id f \<noteq> Flow_id new" by metis
    with True that have "f \<in> set ?others" by simp
    then have "Flow_id f \<in> Flow_id ` set ?others" by (rule imageI)
    then show ?thesis by simp
  next
    case False
    then show ?thesis by auto
  qed
  have "filter ?P (map ?h fs) = []"
    by (rule filter_map_empty [where P = ?P and h = ?h]) (rule old)
  moreover have "?P new" using new by simp
  ultimately show ?thesis using kept by simp
qed

lemma only_minted_group_row:
  assumes "g \<notin> Flow_version_group_id ` set fs"
    and "Flow_version_group_id new = g" "\<not> Flow_archived new"
  shows "filter (\<lambda>f. Flow_version_group_id f = g \<and> \<not> Flow_archived f) (fs @ [new]) = [new]"
proof -
  have "\<forall>f \<in> set fs. Flow_version_group_id f \<noteq> g"
    using assms(1) by (metis imageI)
  then have "filter (\<lambda>f. Flow_version_group_id f = g \<and> \<not> Flow_archived f) fs = []"
    by (simp add: filter_empty_conv)
  with assms(2,3) show ?thesis by simp
qed

lemma resolve_create_flow_Inr:
  assumes "resolve_create_flow e input w = (Inr r, w')"
  obtains sf pid g n w1 w2 u where
    "input ''serialized_flow'' = Some sf" "input ''project_id'' = Some pid" "pid \<noteq> PNone"
    "resolve_version_group e pid sf (get_default input ''version_group_id'' PNone) w = (Inr (g, n), w1)"
    "create_flow e pid sf g (get_default input ''set_schedule_active'' (PBool True))
        (get_default input ''description'' PNone) (get_default input ''idempotency_key'' PNone) w1
       = (Inr (new_flow_id e), w2)"
    "archive_other_versions e g (new_flow_id e) w2 = (Inr u, w')"
    "r = PDict [(''id'', PStr (new_flow_id e))]"
proof -
  from assms obtain sf where sf: "input ''serialized_flow'' = Some sf"
    by (cases "input ''serialized_flow''") (auto simp: resolve_create_flow_def subscript_def raise_def)
  from assms sf obtain pid where pid: "input ''project_id'' = Some pid"
    by (cases "input ''project_id''") (auto simp: resolve_create_flow_def subscript_def raise_def)
  from assms sf pid have ne: "pid \<noteq> PNone"
    by (auto simp: resolve_create_flow_def subscript_def raise_def Let_def)
  let ?v = "get_default input ''version_group_id'' PNone"
  let ?s = "get_default input ''set_schedule_active'' (PBool True)"
  let ?d = "get_default input ''description'' PNone"
  let ?k = "get_default input ''idempotency_key'' PNone"
  from assms sf pid ne have run:
    "await (resolve_version_group e pid sf ?v) (\<lambda>(g, n).
       await (create_flow e pid sf g ?s ?d ?k) (\<lambda>flow_id.
         await (archive_other_versions e g flow_id)
           (\<lambda>_. return (PDict [(''id'', PStr flow_id)])))) w = (Inr r, w')"
    by (simp add: resolve_create_flow_def subscript_def Let_def)
  then obtain gn w1 where
    res: "resolve_version_group e pid sf ?v w = (Inr gn, w1)" and
    k1: "(case gn of (g, n) \<Rightarrow> await (create_flow e pid sf g ?s ?d ?k) (\<lambda>flow_id.
         await (archive_other_versions e g flow_id)
           (\<lambda>_. return (PDict [(''id'', PStr flow_id)])))) w1 = (Inr r, w')"
    by (rule await_Inr_elim)
  obtain g n where gn: "gn = (g, n)" by (cases gn)
  from k1 gn obtain fid w2 where
    cr: "create_flow e pid sf g ?s ?d ?k w1 = (Inr fid, w2)" and
    k2: "await (archive_other_versions e g fid) (\<lambda>_. return (PDict [(''id'', PStr fid)])) w2 = (Inr r, w')"
    by (auto elim: await_Inr_elim)
  from k2 obtain u w3 where
    ar: "archive_other_versions e g fid w2 = (Inr u, w3)" and
    k3: "return (PDict [(''id'', PStr fid)]) w3 = (Inr r, w')"
    by (rule await_Inr_elim)
  from create_flow_Inr(1) [OF cr] have fid: "fid = new_flow_id e" .
  from k3 have "r = PDict [(''id'', PStr fid)]" "w3 = w'" by (simp_all add: return_def)
  with sf pid ne res gn cr ar fid that show thesis by blast
qed

text \<open>
  Claim C1. After a successful \<^verbatim>\<open>create_flow\<close> resolution, run on its own against a
  store whose fresh identifiers are fresh (the identifier of the new flow is not in
  use, nor is the version group identifier the store would mint), the version group of
  the new flow has exactly one unarchived member, the new flow, whose identifier is the
  one returned: every other member of the group, in any project, is archived.
\<close>

theorem one_unarchived_version_after_create_flow:
  assumes run: "resolve_create_flow e input w = (Inr r, w')"
    and fresh_id: "new_flow_id e \<notin> Flow_id ` set (flows w)"
    and fresh_group: "PStr (new_version_group_id e) \<notin> Flow_version_group_id ` set (flows w)"
  shows "\<exists>new \<in> set (flows w').
           r = PDict [(''id'', PStr (Flow_id new))] \<and>
           Flow_id new = new_flow_id e \<and>
           filter (\<lambda>f. Flow_version_group_id f = Flow_version_group_id new \<and> \<not> Flow_archived f)
             (flows w') = [new]"
proof -
  from run obtain sf pid g n w1 w2 u where
    res: "resolve_version_group e pid sf (get_default input ''version_group_id'' PNone) w = (Inr (g, n), w1)"
    and cr: "create_flow e pid sf g (get_default input ''set_schedule_active'' (PBool True))
        (get_default input ''description'' PNone) (get_default input ''idempotency_key'' PNone) w1
       = (Inr (new_flow_id e), w2)"
    and ar: "archive_other_versions e g (new_flow_id e) w2 = (Inr u, w')"
    and r: "r = PDict [(''id'', PStr (new_flow_id e))]"
    by (rule resolve_create_flow_Inr)
  let ?new = "new_flow e pid sf g"
  have w1: "flows w1 = flows w" by (rule resolve_version_group_flows [OF res])
  have w2: "flows w2 = flows w @ [?new]" using create_flow_Inr(2) [OF cr] w1 by simp
  have id: "Flow_id ?new = new_flow_id e" and un: "\<not> Flow_archived ?new"
    by (simp_all add: new_flow_def)
  have one: "filter (\<lambda>f. Flow_version_group_id f = Flow_version_group_id ?new \<and> \<not> Flow_archived f)
               (flows w') = [?new]"
  proof (cases "truthy g")
    case True
    then have grp: "Flow_version_group_id ?new = g" by (simp add: new_flow_def)
    from fresh_id id have "Flow_id ?new \<notin> Flow_id ` set (flows w)" by simp
    from only_new_flow_unarchived [OF this grp un]
    show ?thesis using archive_other_versions_Inr [OF ar] True w2 id grp by simp
  next
    case False
    then have grp: "Flow_version_group_id ?new = PStr (new_version_group_id e)"
      by (simp add: new_flow_def)
    from only_minted_group_row [OF fresh_group grp un]
    show ?thesis using archive_other_versions_Inr [OF ar] False w2 grp by simp
  qed
  then have "?new \<in> set (filter (\<lambda>f. Flow_version_group_id f = Flow_version_group_id ?new \<and>
                \<not> Flow_archived f) (flows w'))"
    by simp
  then have "?new \<in> set (flows w')" by simp
  then show ?thesis
  proof (rule bexI [of _ ?new, rotated])
    show "r = PDict [(''id'', PStr (Flow_id ?new))] \<and> Flow_id ?new = new_flow_id e \<and>
      filter (\<lambda>f. Flow_version_group_id f = Flow_version_group_id ?new \<and> \<not> Flow_archived f)
        (flows w') = [?new]"
      using one r id by simp
  qed
qed


text \<open>
  The first scenario of the spec: \<open>etl\<close> is submitted to project \<open>P1\<close> with no
  version group identifier. The new flow \<open>F2\<close> joins group \<open>G1\<close>, and \<open>F1\<close> and
  \<open>R1\<close> are archived.
\<close>

lemma etl_run:
  "resolve_create_flow env1 (submission (PStr ''etl'') (PStr ''P1'')) store1 =
     (Inr (PDict [(''id'', PStr ''F2'')]),
      \<lparr>flows = [F0, F1\<lparr>Flow_archived := True\<rparr>, R1\<lparr>Flow_archived := True\<rparr>,
                \<lparr>Flow_id = ''F2'', Flow_project_id = PStr ''P1'', Flow_name = PStr ''etl'',
                 Flow_version_group_id = PStr ''G1'', Flow_archived = False, Flow_created = 3\<rparr>],
       calls = [Call_where_name_first (PStr ''P1'') (PStr ''etl''),
                Call_create_flow (PStr ''P1'') (PDict [(''name'', PStr ''etl'')]) (PStr ''G1'')
                  (PBool True) PNone PNone,
                Call_where_others_get (PStr ''G1'') ''F2'',
                Call_archive_flow ''F1'', Call_archive_flow ''R1'']\<rparr>)"
  by (simp add: example_defs resolver_defs store_defs)

theorem one_unarchived_version_after_create_flow_witness:
  "new_flow_id env1 \<notin> Flow_id ` set (flows store1) \<and>
   PStr (new_version_group_id env1) \<notin> Flow_version_group_id ` set (flows store1) \<and>
   (\<exists>new \<in> set (flows (snd (resolve_create_flow env1 (submission (PStr ''etl'') (PStr ''P1'')) store1))).
      fst (resolve_create_flow env1 (submission (PStr ''etl'') (PStr ''P1'')) store1) =
        Inr (PDict [(''id'', PStr (Flow_id new))]) \<and>
      Flow_id new = new_flow_id env1 \<and>
      filter (\<lambda>f. Flow_version_group_id f = Flow_version_group_id new \<and> \<not> Flow_archived f)
        (flows (snd (resolve_create_flow env1 (submission (PStr ''etl'') (PStr ''P1'')) store1)))
        = [new])"
proof -
  have fresh_id: "new_flow_id env1 \<notin> Flow_id ` set (flows store1)"
    by (simp add: example_defs)
  have fresh_group: "PStr (new_version_group_id env1) \<notin> Flow_version_group_id ` set (flows store1)"
    by (simp add: example_defs)
  note one = one_unarchived_version_after_create_flow [OF etl_run fresh_id fresh_group]
  show ?thesis
    unfolding etl_run fst_conv snd_conv sum.inject
    using fresh_id fresh_group one by (intro conjI)
qed



text \<open>
  Claim C7. A submission with no version group identifier (the key absent, or
  \<^verbatim>\<open>None\<close>) and no flow of the project under the submitted name: resolution returns
  \<^verbatim>\<open>new_version_group = True\<close> and leaves the identifier \<^verbatim>\<open>None\<close>;
  \<^verbatim>\<open>create_flow\<close> is called with \<^verbatim>\<open>version_group_id = None\<close>, and the new flow is in
  the group the store mints.
\<close>

theorem new_lineage_left_to_store:
  assumes unset: "get_default input ''version_group_id'' PNone = PNone"
    and sf: "input ''serialized_flow'' = Some serialized_flow"
    and name: "dict_get serialized_flow ''name'' = Inr name"
    and pid: "input ''project_id'' = Some project_id" "project_id \<noteq> PNone"
    and nomatch: "\<forall>f \<in> set (flows w). \<not> (Flow_project_id f = project_id \<and> Flow_name f = name)"
    and store: "\<not> raises e Op_where_name_first" "\<not> raises e Op_create_flow"
  shows "resolve_version_group e project_id serialized_flow PNone w =
           (Inr (PNone, True), issue (Call_where_name_first project_id name) w) \<and>
         resolve_create_flow e input w =
           (Inr (PDict [(''id'', PStr (new_flow_id e))]),
            w\<lparr>flows := flows w @ [new_flow e project_id serialized_flow PNone],
              calls := calls w @
                [Call_where_name_first project_id name,
                 Call_create_flow project_id serialized_flow PNone
                   (get_default input ''set_schedule_active'' (PBool True))
                   (get_default input ''description'' PNone)
                   (get_default input ''idempotency_key'' PNone)]\<rparr>) \<and>
         Flow_version_group_id (new_flow e project_id serialized_flow PNone) =
           PStr (new_version_group_id e)"
proof -
  from nomatch have none:
    "filter (\<lambda>f. Flow_project_id f = project_id \<and> Flow_name f = name) (flows w) = []"
    by (simp add: filter_empty_conv)
  have res: "resolve_version_group e project_id serialized_flow PNone w =
           (Inr (PNone, True), issue (Call_where_name_first project_id name) w)"
    using resolve_version_group_unset [OF _ name store(1), of PNone project_id w]
    by (simp add: none)
  have run: "resolve_create_flow e input w =
           (Inr (PDict [(''id'', PStr (new_flow_id e))]),
            w\<lparr>flows := flows w @ [new_flow e project_id serialized_flow PNone],
              calls := calls w @
                [Call_where_name_first project_id name,
                 Call_create_flow project_id serialized_flow PNone
                   (get_default input ''set_schedule_active'' (PBool True))
                   (get_default input ''description'' PNone)
                   (get_default input ''idempotency_key'' PNone)]\<rparr>)"
    using sf pid store(2)
    by (simp add: resolve_create_flow_def subscript_def unset await_def res create_flow_def
        archive_other_versions_def return_def issue_def)
  have "Flow_version_group_id (new_flow e project_id serialized_flow PNone) =
           PStr (new_version_group_id e)"
    by (simp add: new_flow_def)
  with res run show ?thesis by simp
qed

text \<open>
  The second scenario of the spec: \<open>new-flow\<close> is submitted to project \<open>P1\<close>, which has
  no flow of that name. The call log ends with the creation, and the new flow is in the
  minted group \<open>G2\<close>.
\<close>

theorem new_lineage_left_to_store_witness:
  "resolve_version_group env1 (PStr ''P1'') (PDict [(''name'', PStr ''new-flow'')]) PNone store1 =
     (Inr (PNone, True), issue (Call_where_name_first (PStr ''P1'') (PStr ''new-flow'')) store1) \<and>
   resolve_create_flow env1 (submission (PStr ''new-flow'') (PStr ''P1'')) store1 =
     (Inr (PDict [(''id'', PStr ''F2'')]),
      \<lparr>flows = [F0, F1, R1,
                \<lparr>Flow_id = ''F2'', Flow_project_id = PStr ''P1'', Flow_name = PStr ''new-flow'',
                 Flow_version_group_id = PStr ''G2'', Flow_archived = False, Flow_created = 3\<rparr>],
       calls = [Call_where_name_first (PStr ''P1'') (PStr ''new-flow''),
                Call_create_flow (PStr ''P1'') (PDict [(''name'', PStr ''new-flow'')]) PNone
                  (PBool True) PNone PNone]\<rparr>)"
proof -
  let ?input = "submission (PStr ''new-flow'') (PStr ''P1'')"
  have unset: "get_default ?input ''version_group_id'' PNone = PNone"
    by (simp add: submission_def get_default_def)
  have sf: "?input ''serialized_flow'' = Some (PDict [(''name'', PStr ''new-flow'')])"
    by (simp add: submission_def)
  have name: "dict_get (PDict [(''name'', PStr ''new-flow'')]) ''name'' = Inr (PStr ''new-flow'')"
    by (simp add: dict_get_def)
  have pid: "?input ''project_id'' = Some (PStr ''P1'')" "PStr ''P1'' \<noteq> PNone"
    by (simp_all add: submission_def)
  have nomatch: "\<forall>f \<in> set (flows store1).
      \<not> (Flow_project_id f = PStr ''P1'' \<and> Flow_name f = PStr ''new-flow'')"
    by (simp add: F0_def F1_def R1_def store1_def)
  have store: "\<not> raises env1 Op_where_name_first" "\<not> raises env1 Op_create_flow"
    by (simp_all add: env1_def)
  have rest: "get_default ?input ''set_schedule_active'' (PBool True) = PBool True"
    "get_default ?input ''description'' PNone = PNone"
    "get_default ?input ''idempotency_key'' PNone = PNone"
    by (simp_all add: submission_def get_default_def)
  from new_lineage_left_to_store [OF unset sf name pid nomatch store]
  show ?thesis
    by (simp add: new_flow_def dict_get_def rest env1_def store1_def)
qed

lemma resolve_version_group_new:
  assumes "resolve_version_group e pid sf v w = (Inr (g, True), w1)"
  shows "g = v" and "truthy v \<Longrightarrow> \<forall>f \<in> set (flows w). Flow_version_group_id f \<noteq> v"
    and "w1 = issue (Call_where_name_first pid (case dict_get sf ''name'' of Inr n \<Rightarrow> n | Inl err \<Rightarrow> PNone)) w
         \<or> w1 = issue (Call_where_group_first v) w"
  using assms
  by (auto simp: resolve_version_group_def await_def return_def raise_def Let_def
      Flow_where_name_first_def Flow_where_group_first_def find_None_iff
      split: if_splits sum.splits option.splits)

lemma no_other_versions:
  assumes "\<forall>f \<in> set fs. Flow_version_group_id f \<noteq> v"
  shows "filter (\<lambda>f. Flow_version_group_id f = v \<and> Flow_id f \<noteq> new_flow_id e \<and> \<not> Flow_archived f)
           (fs @ [new_flow e pid sf g]) = []"
  using assms by (simp add: filter_empty_conv new_flow_def)

text \<open>
  Claim C8. When resolution returns \<^verbatim>\<open>new_version_group = True\<close>, the resolver issues
  no call to \<^verbatim>\<open>archive_flow\<close>, whatever the store does afterwards.
\<close>

theorem no_archive_on_new_group:
  assumes sf: "input ''serialized_flow'' = Some sf" and pid: "input ''project_id'' = Some pid"
    and new: "resolve_version_group e pid sf (get_default input ''version_group_id'' PNone) w =
                (Inr (g, True), w1)"
  shows "\<forall>flow_id. Call_archive_flow flow_id \<notin>
           set (issued w (snd (resolve_create_flow e input w)))"
proof (cases "pid = PNone")
  case True
  with sf pid show ?thesis
    by (simp add: resolve_create_flow_def subscript_def raise_def issued_def Let_def)
next
  case False
  let ?v = "get_default input ''version_group_id'' PNone"
  from resolve_version_group_new [OF new] have g: "g = ?v"
    and none: "truthy ?v \<Longrightarrow> \<forall>f \<in> set (flows w). Flow_version_group_id f \<noteq> ?v"
    and w1: "w1 = issue (Call_where_name_first pid (case dict_get sf ''name'' of Inr n \<Rightarrow> n | Inl err \<Rightarrow> PNone)) w
         \<or> w1 = issue (Call_where_group_first ?v) w"
    by auto
  show ?thesis
  proof (cases "truthy ?v")
    case unset: False
    from w1 show ?thesis
      using sf pid False new unset g
      by (auto simp: resolve_create_flow_def subscript_def Let_def await_def create_flow_def
          archive_other_versions_def return_def issue_def issued_def)
  next
    case set: True
    note empty = no_other_versions [OF none [OF set], of e pid sf ?v]
    from w1 show ?thesis
      using sf pid False new set g empty
      by (auto simp: resolve_create_flow_def subscript_def Let_def await_def create_flow_def
          archive_other_versions_def Flow_where_others_get_def return_def issue_def issued_def)
  qed
qed

text \<open>
  The third scenario of the spec: a submission under the unknown group \<open>G-unknown\<close>.
  The group is new, the query for other versions finds none, and nothing is archived.
\<close>

theorem no_archive_on_new_group_witness:
  "resolve_version_group env1 (PStr ''P1'') (PDict [(''name'', PStr ''etl'')])
       (PStr ''G-unknown'') store1 =
     (Inr (PStr ''G-unknown'', True), issue (Call_where_group_first (PStr ''G-unknown'')) store1) \<and>
   issued store1 (snd (resolve_create_flow env1
       ((submission (PStr ''etl'') (PStr ''P1''))(''version_group_id'' \<mapsto> PStr ''G-unknown''))
       store1)) =
     [Call_where_group_first (PStr ''G-unknown''),
      Call_create_flow (PStr ''P1'') (PDict [(''name'', PStr ''etl'')]) (PStr ''G-unknown'')
        (PBool True) PNone PNone,
      Call_where_others_get (PStr ''G-unknown'') ''F2''] \<and>
   (\<forall>flow_id. Call_archive_flow flow_id \<notin>
      set (issued store1 (snd (resolve_create_flow env1
        ((submission (PStr ''etl'') (PStr ''P1''))(''version_group_id'' \<mapsto> PStr ''G-unknown''))
        store1))))"
proof -
  let ?input = "(submission (PStr ''etl'') (PStr ''P1''))(''version_group_id'' \<mapsto> PStr ''G-unknown'')"
  have sf: "?input ''serialized_flow'' = Some (PDict [(''name'', PStr ''etl'')])"
    and pid: "?input ''project_id'' = Some (PStr ''P1'')"
    and v: "get_default ?input ''version_group_id'' PNone = PStr ''G-unknown''"
    by (simp_all add: submission_def get_default_def)
  have new: "resolve_version_group env1 (PStr ''P1'') (PDict [(''name'', PStr ''etl'')])
       (PStr ''G-unknown'') store1 =
     (Inr (PStr ''G-unknown'', True), issue (Call_where_group_first (PStr ''G-unknown'')) store1)"
    by (simp add: example_defs resolver_defs store_defs)
  have run: "issued store1 (snd (resolve_create_flow env1 ?input store1)) =
     [Call_where_group_first (PStr ''G-unknown''),
      Call_create_flow (PStr ''P1'') (PDict [(''name'', PStr ''etl'')]) (PStr ''G-unknown'')
        (PBool True) PNone PNone,
      Call_where_others_get (PStr ''G-unknown'') ''F2'']"
    by (simp add: example_defs resolver_defs store_defs issued_def)
  from no_archive_on_new_group [of ?input, OF sf pid, unfolded v, OF new] new run
  show ?thesis by (intro conjI)
qed



lemma archive_versions_calls:
  "archive_versions e vs w = (res, w') \<Longrightarrow>
     \<exists>k. calls w' = calls w @ map (\<lambda>v. Call_archive_flow (Flow_id v)) (take k vs)"
proof (induction vs arbitrary: w)
  case Nil
  then show ?case by (simp add: return_def)
next
  case (Cons v vs)
  show ?case
  proof (cases "raises e (Op_archive_flow (Flow_id v))")
    case True
    with Cons.prems have "calls w' = calls w @ [Call_archive_flow (Flow_id v)]"
      by (auto simp: await_def archive_flow_def issue_def)
    then have "calls w' = calls w @ map (\<lambda>v. Call_archive_flow (Flow_id v)) (take 1 (v # vs))"
      by simp
    then show ?thesis ..
  next
    case False
    then obtain b w1 where step: "archive_flow e (Flow_id v) w = (Inr b, w1)"
      and w1: "calls w1 = calls w @ [Call_archive_flow (Flow_id v)]"
      by (simp add: archive_flow_def issue_def)
    from Cons.prems step have "archive_versions e vs w1 = (res, w')"
      by (simp add: await_def)
    from Cons.IH [OF this] obtain k where
      "calls w' = calls w1 @ map (\<lambda>v. Call_archive_flow (Flow_id v)) (take k vs)" ..
    with w1 have "calls w' = calls w @ map (\<lambda>v. Call_archive_flow (Flow_id v)) (take (Suc k) (v # vs))"
      by simp
    then show ?thesis ..
  qed
qed

lemma archive_other_versions_calls:
  assumes "archive_other_versions e g flow_id w = (res, w')"
  shows "\<exists>ids. calls w' = calls w @
           (if truthy g then Call_where_others_get g flow_id # map Call_archive_flow ids else [])"
proof (cases "truthy g")
  case False
  with assms show ?thesis by (simp add: archive_other_versions_def return_def)
next
  case True
  let ?w = "issue (Call_where_others_get g flow_id) w"
  show ?thesis
  proof (cases "raises e Op_where_others_get")
    case raises: True
    with assms True have "calls w' = calls w @ Call_where_others_get g flow_id # map Call_archive_flow []"
      by (auto simp: archive_other_versions_def await_def Flow_where_others_get_def issue_def)
    with True show ?thesis by metis
  next
    case False
    with assms True obtain vs where "archive_versions e vs ?w = (res, w')"
      by (auto simp: archive_other_versions_def await_def Flow_where_others_get_def)
    from archive_versions_calls [OF this] obtain k where
      "calls w' = calls ?w @ map (\<lambda>v. Call_archive_flow (Flow_id v)) (take k vs)" ..
    then have "calls w' = calls w @ Call_where_others_get g flow_id #
        map Call_archive_flow (map Flow_id (take k vs))"
      by (simp add: issue_def comp_def)
    with True show ?thesis by metis
  qed
qed

lemma resolve_version_group_origin:
  assumes "resolve_version_group e pid sf v w = (Inr (g, n), w1)"
  shows "g = v \<or> (\<exists>f \<in> set (flows w). g = Flow_version_group_id f)"
proof (cases "truthy v")
  case True
  with assms show ?thesis
    by (auto simp: resolve_version_group_def await_def return_def Flow_where_group_first_def Let_def
        split: if_splits option.splits)
next
  case False
  with assms obtain name where name: "dict_get sf ''name'' = Inr name"
    by (cases "dict_get sf ''name''") (auto simp: resolve_version_group_def raise_def)
  let ?cands = "filter (\<lambda>f. Flow_project_id f = pid \<and> Flow_name f = name) (flows w)"
  show ?thesis
  proof (cases "latest ?cands")
    case None
    with assms False name have "g = v"
      by (auto simp: resolve_version_group_def await_def return_def Flow_where_name_first_def Let_def
          split: if_splits)
    then show ?thesis ..
  next
    case (Some f)
    with assms False name have "g = Flow_version_group_id f"
      by (auto simp: resolve_version_group_def await_def return_def Flow_where_name_first_def Let_def
          split: if_splits)
    moreover from latest_Some [OF Some] have "f \<in> set (flows w)" by simp
    ultimately show ?thesis by blast
  qed
qed

lemma calls_after_resolution:
  assumes sf: "input ''serialized_flow'' = Some sf"
    and pid: "input ''project_id'' = Some pid" "pid \<noteq> PNone"
    and res: "resolve_version_group e pid sf (get_default input ''version_group_id'' PNone) w =
                (Inr (g, n), w1)"
  shows "\<exists>ids. calls (snd (resolve_create_flow e input w)) =
            calls w1 @
            Call_create_flow pid sf g (get_default input ''set_schedule_active'' (PBool True))
                (get_default input ''description'' PNone)
                (get_default input ''idempotency_key'' PNone) #
            (if \<not> raises e Op_create_flow \<and> truthy g
             then Call_where_others_get g (new_flow_id e) # map Call_archive_flow ids
             else [])"
proof (cases "raises e Op_create_flow")
  case True
  with sf pid res show ?thesis
    by (simp add: resolve_create_flow_def subscript_def Let_def await_def create_flow_def issue_def)
next
  case False
  let ?s = "get_default input ''set_schedule_active'' (PBool True)"
  let ?d = "get_default input ''description'' PNone"
  let ?k = "get_default input ''idempotency_key'' PNone"
  obtain w2 where cr: "create_flow e pid sf g ?s ?d ?k w1 = (Inr (new_flow_id e), w2)"
    and w2: "calls w2 = calls w1 @ [Call_create_flow pid sf g ?s ?d ?k]"
    using False by (simp add: create_flow_def issue_def)
  obtain res3 w3 where ar: "archive_other_versions e g (new_flow_id e) w2 = (res3, w3)"
    by (cases "archive_other_versions e g (new_flow_id e) w2")
  have "snd (resolve_create_flow e input w) = w3"
    using sf pid res cr ar
    by (simp add: resolve_create_flow_def subscript_def Let_def await_def return_def
        split: sum.splits)
  moreover from archive_other_versions_calls [OF ar] obtain ids where
    "calls w3 = calls w2 @
       (if truthy g then Call_where_others_get g (new_flow_id e) # map Call_archive_flow ids else [])" ..
  ultimately have "calls (snd (resolve_create_flow e input w)) =
            calls w1 @ Call_create_flow pid sf g ?s ?d ?k #
            (if \<not> raises e Op_create_flow \<and> truthy g
             then Call_where_others_get g (new_flow_id e) # map Call_archive_flow ids
             else [])"
    using w2 False by simp
  then show ?thesis ..
qed

text \<open>
  Claim C3, as amended. \<^verbatim>\<open>create_flow\<close> returns the identifier of the new flow and
  nothing else. The version group identifier in hand after resolution is the
  caller's or the one reused from the name match; when it is non-empty, the query
  for the other unarchived versions is issued right after the creation, with that
  identifier and the identifier of the new flow, followed only by calls to
  \<^verbatim>\<open>archive_flow\<close>; when it is empty, the creation is the last call.
\<close>

theorem supersession_on_resolved_group:
  assumes sf: "input ''serialized_flow'' = Some sf"
    and pid: "input ''project_id'' = Some pid" "pid \<noteq> PNone"
    and res: "resolve_version_group e pid sf (get_default input ''version_group_id'' PNone) w =
                (Inr (g, n), w1)"
    and store: "\<not> raises e Op_create_flow"
  shows "fst (create_flow e pid sf g (get_default input ''set_schedule_active'' (PBool True))
                (get_default input ''description'' PNone)
                (get_default input ''idempotency_key'' PNone) w1) = Inr (new_flow_id e) \<and>
         (g = get_default input ''version_group_id'' PNone \<or>
            (\<exists>f \<in> set (flows w). g = Flow_version_group_id f)) \<and>
         (\<exists>ids. calls (snd (resolve_create_flow e input w)) =
            calls w1 @
            Call_create_flow pid sf g (get_default input ''set_schedule_active'' (PBool True))
                (get_default input ''description'' PNone)
                (get_default input ''idempotency_key'' PNone) #
            (if truthy g then Call_where_others_get g (new_flow_id e) # map Call_archive_flow ids
             else []))"
proof -
  have "fst (create_flow e pid sf g (get_default input ''set_schedule_active'' (PBool True))
                (get_default input ''description'' PNone)
                (get_default input ''idempotency_key'' PNone) w1) = Inr (new_flow_id e)"
    using store by (simp add: create_flow_def Let_def)
  with resolve_version_group_origin [OF res] calls_after_resolution [OF sf pid res] store
  show ?thesis by simp
qed

text \<open>
  In the first scenario the group \<open>G1\<close> comes from the name match, and the query for
  the other versions of \<open>G1\<close> follows the creation of \<open>F2\<close>.
\<close>

theorem supersession_on_resolved_group_witness:
  "resolve_version_group env1 (PStr ''P1'') (PDict [(''name'', PStr ''etl'')]) PNone store1 =
     (Inr (PStr ''G1'', False), issue (Call_where_name_first (PStr ''P1'') (PStr ''etl'')) store1) \<and>
   (\<exists>ids. calls (snd (resolve_create_flow env1 (submission (PStr ''etl'') (PStr ''P1'')) store1)) =
      [Call_where_name_first (PStr ''P1'') (PStr ''etl''),
       Call_create_flow (PStr ''P1'') (PDict [(''name'', PStr ''etl'')]) (PStr ''G1'')
         (PBool True) PNone PNone,
       Call_where_others_get (PStr ''G1'') ''F2''] @ map Call_archive_flow ids)"
proof -
  let ?input = "submission (PStr ''etl'') (PStr ''P1'')"
  have sf: "?input ''serialized_flow'' = Some (PDict [(''name'', PStr ''etl'')])"
    and pid: "?input ''project_id'' = Some (PStr ''P1'')" "PStr ''P1'' \<noteq> PNone"
    by (simp_all add: submission_def)
  have args: "get_default ?input ''version_group_id'' PNone = PNone"
    "get_default ?input ''set_schedule_active'' (PBool True) = PBool True"
    "get_default ?input ''description'' PNone = PNone"
    "get_default ?input ''idempotency_key'' PNone = PNone"
    by (simp_all add: submission_def get_default_def)
  have res: "resolve_version_group env1 (PStr ''P1'') (PDict [(''name'', PStr ''etl'')]) PNone store1 =
     (Inr (PStr ''G1'', False), issue (Call_where_name_first (PStr ''P1'') (PStr ''etl'')) store1)"
    by (simp add: example_defs resolver_defs store_defs)
  have store: "\<not> raises env1 Op_create_flow" by (simp add: env1_def)
  from supersession_on_resolved_group [of ?input, OF sf pid, unfolded args, OF res store]
  have "\<exists>ids. calls (snd (resolve_create_flow env1 ?input store1)) =
      [Call_where_name_first (PStr ''P1'') (PStr ''etl''),
       Call_create_flow (PStr ''P1'') (PDict [(''name'', PStr ''etl'')]) (PStr ''G1'')
         (PBool True) PNone PNone,
       Call_where_others_get (PStr ''G1'') ''F2''] @ map Call_archive_flow ids"
    by (simp add: issue_def store1_def env1_def)
  with res show ?thesis by (intro conjI)
qed

text \<open>
  Claim C3 as stated fails in the second scenario: the store puts the new flow \<open>F2\<close>
  into the group \<open>G2\<close> it mints, the resolver receives \<open>F2\<close> alone, and the
  creation is its last call: no query for the other versions of \<open>G2\<close> is issued.
\<close>

lemma new_flow_run:
  "resolve_create_flow env1 (submission (PStr ''new-flow'') (PStr ''P1'')) store1 =
     (Inr (PDict [(''id'', PStr ''F2'')]),
      \<lparr>flows = [F0, F1, R1,
                \<lparr>Flow_id = ''F2'', Flow_project_id = PStr ''P1'', Flow_name = PStr ''new-flow'',
                 Flow_version_group_id = PStr ''G2'', Flow_archived = False, Flow_created = 3\<rparr>],
       calls = [Call_where_name_first (PStr ''P1'') (PStr ''new-flow''),
                Call_create_flow (PStr ''P1'') (PDict [(''name'', PStr ''new-flow'')]) PNone
                  (PBool True) PNone PNone]\<rparr>)"
  by (simp add: example_defs resolver_defs store_defs)

theorem store_minted_group_not_superseded:
  "fst (resolve_create_flow env1 (submission (PStr ''new-flow'') (PStr ''P1'')) store1) =
     Inr (PDict [(''id'', PStr ''F2'')]) \<and>
   Flow_version_group_id
     (last (flows (snd (resolve_create_flow env1 (submission (PStr ''new-flow'') (PStr ''P1'')) store1))))
     = PStr ''G2'' \<and>
   calls (snd (resolve_create_flow env1 (submission (PStr ''new-flow'') (PStr ''P1'')) store1)) =
     [Call_where_name_first (PStr ''P1'') (PStr ''new-flow''),
      Call_create_flow (PStr ''P1'') (PDict [(''name'', PStr ''new-flow'')]) PNone
        (PBool True) PNone PNone] \<and>
   Call_where_others_get (PStr ''G2'') ''F2'' \<notin>
     set (calls (snd (resolve_create_flow env1 (submission (PStr ''new-flow'') (PStr ''P1'')) store1)))"
  by (simp add: new_flow_run)

section \<open>The project identifier\<close>

text \<open>
  Claim C4, as amended. A submission whose \<^verbatim>\<open>project_id\<close> is \<^verbatim>\<open>None\<close> fails with
  \<^verbatim>\<open>ValueError("Invalid project ID")\<close>, and one without the key fails with
  \<^verbatim>\<open>KeyError\<close> (as does one without \<^verbatim>\<open>serialized_flow\<close>, which is read first); in
  each case the store is left as it was and no call is issued.
\<close>

theorem null_project_id_fails_before_store:
  assumes "input ''project_id'' = None \<or> input ''project_id'' = Some PNone"
  shows "resolve_create_flow e input w =
           (Inl (if input ''serialized_flow'' = None then KeyError ''serialized_flow''
                 else if input ''project_id'' = None then KeyError ''project_id''
                 else ValueError ''Invalid project ID''), w)"
  using assms
  by (auto simp: resolve_create_flow_def subscript_def raise_def Let_def split: option.splits)

theorem null_project_id_fails_before_store_witness:
  "resolve_create_flow env1 (submission (PStr ''etl'') PNone) store1 =
     (Inl (ValueError ''Invalid project ID''), store1) \<and>
   resolve_create_flow env1 [''serialized_flow'' \<mapsto> PDict [(''name'', PStr ''etl'')]] store1 =
     (Inl (KeyError ''project_id''), store1)"
proof -
  have null: "submission (PStr ''etl'') PNone ''project_id'' = None \<or>
              submission (PStr ''etl'') PNone ''project_id'' = Some PNone"
    by (simp add: submission_def)
  have absent: "[''serialized_flow'' \<mapsto> PDict [(''name'', PStr ''etl'')]] ''project_id'' = None \<or>
     [''serialized_flow'' \<mapsto> PDict [(''name'', PStr ''etl'')]] ''project_id'' = Some PNone"
    by simp
  from null_project_id_fails_before_store [of "submission (PStr ''etl'') PNone" env1 store1, OF null]
    null_project_id_fails_before_store
      [of "[''serialized_flow'' \<mapsto> PDict [(''name'', PStr ''etl'')]]" env1 store1, OF absent]
  show ?thesis by (simp add: submission_def)
qed

text \<open>
  Claim C4 as stated fails on the empty string: it is not \<^verbatim>\<open>None\<close>, so the query by
  name is issued and a flow is created in the project \<^verbatim>\<open>""\<close>.
\<close>

theorem empty_project_id_accepted:
  "resolve_create_flow env1 (submission (PStr ''etl'') (PStr '''')) store1 =
     (Inr (PDict [(''id'', PStr ''F2'')]),
      \<lparr>flows = [F0, F1, R1,
                \<lparr>Flow_id = ''F2'', Flow_project_id = PStr '''', Flow_name = PStr ''etl'',
                 Flow_version_group_id = PStr ''G2'', Flow_archived = False, Flow_created = 3\<rparr>],
       calls = [Call_where_name_first (PStr '''') (PStr ''etl''),
                Call_create_flow (PStr '''') (PDict [(''name'', PStr ''etl'')]) PNone
                  (PBool True) PNone PNone]\<rparr>)"
  by (simp add: example_defs resolver_defs store_defs)



section \<open>An empty version group identifier\<close>

text \<open>
  Claim C10, as amended. A submission whose \<^verbatim>\<open>version_group_id\<close> is present but falsy
  (the empty string, \<^verbatim>\<open>None\<close>) takes the lookup by project and name: that query is the
  one call of resolution and the first call of the run, the existence query by version
  group is never issued, and no other versions are looked up under the falsy value.
  When a flow of the project has the name, resolution and the whole run are those of
  the submission without the key. When none has, resolution keeps the falsy value, and
  that value, not \<^verbatim>\<open>None\<close>, is handed to \<^verbatim>\<open>create_flow\<close> as its
  \<^verbatim>\<open>version_group_id\<close>, in the last call of the run.
\<close>

theorem falsy_group_id_takes_name_path:
  assumes present: "input ''version_group_id'' = Some v" and falsy: "\<not> truthy v"
    and sf: "input ''serialized_flow'' = Some sf" and name: "dict_get sf ''name'' = Inr name"
    and pid: "input ''project_id'' = Some pid" "pid \<noteq> PNone"
  shows "snd (resolve_version_group e pid sf v w) = issue (Call_where_name_first pid name) w \<and>
         (\<exists>rest. issued w (snd (resolve_create_flow e input w)) =
                   Call_where_name_first pid name # rest \<and>
                 (\<forall>g. Call_where_group_first g \<notin> set rest) \<and>
                 (\<forall>flow_id. Call_where_others_get v flow_id \<notin> set rest)) \<and>
         ((\<exists>f \<in> set (flows w). Flow_project_id f = pid \<and> Flow_name f = name) \<longrightarrow>
            resolve_version_group e pid sf v w = resolve_version_group e pid sf PNone w \<and>
            resolve_create_flow e input w =
              resolve_create_flow e (input(''version_group_id'' := None)) w) \<and>
         (\<not> (\<exists>f \<in> set (flows w). Flow_project_id f = pid \<and> Flow_name f = name) \<and>
          \<not> raises e Op_where_name_first \<longrightarrow>
            resolve_version_group e pid sf v w =
              (Inr (v, True), issue (Call_where_name_first pid name) w) \<and>
            issued w (snd (resolve_create_flow e input w)) =
              [Call_where_name_first pid name,
               Call_create_flow pid sf v (get_default input ''set_schedule_active'' (PBool True))
                 (get_default input ''description'' PNone)
                 (get_default input ''idempotency_key'' PNone)])"
proof -
  let ?unset = "input(''version_group_id'' := None)"
  let ?w1 = "issue (Call_where_name_first pid name) w"
  let ?cands = "filter (\<lambda>f. Flow_project_id f = pid \<and> Flow_name f = name) (flows w)"
  let ?match = "\<exists>f \<in> set (flows w). Flow_project_id f = pid \<and> Flow_name f = name"
  let ?s = "get_default input ''set_schedule_active'' (PBool True)"
  let ?d = "get_default input ''description'' PNone"
  let ?k = "get_default input ''idempotency_key'' PNone"
  have v: "get_default input ''version_group_id'' PNone = v"
    and u: "get_default ?unset ''version_group_id'' PNone = PNone"
    using present by (simp_all add: get_default_def)
  have keys: "?unset ''serialized_flow'' = Some sf" "?unset ''project_id'' = Some pid"
    "get_default ?unset ''set_schedule_active'' (PBool True) = ?s"
    "get_default ?unset ''description'' PNone = ?d"
    "get_default ?unset ''idempotency_key'' PNone = ?k"
    using sf pid by (simp_all add: get_default_def)
  show ?thesis
  proof (cases "raises e Op_where_name_first")
    case True
    with falsy name have rv: "resolve_version_group e pid sf v w = (Inl (StoreFailure ''where''), ?w1)"
      and ru: "resolve_version_group e pid sf PNone w = (Inl (StoreFailure ''where''), ?w1)"
      by (simp_all add: resolve_version_group_def await_def Flow_where_name_first_def)
    from sf pid rv have run: "resolve_create_flow e input w = (Inl (StoreFailure ''where''), ?w1)"
      by (simp add: resolve_create_flow_def subscript_def Let_def v await_def)
    from keys ru have "resolve_create_flow e ?unset w = (Inl (StoreFailure ''where''), ?w1)"
      by (simp add: resolve_create_flow_def subscript_def Let_def u pid await_def)
    with run have same: "resolve_create_flow e input w = resolve_create_flow e ?unset w"
      by simp
    have "issued w (snd (resolve_create_flow e input w)) = Call_where_name_first pid name # []"
      by (simp add: run issued_def issue_def)
    then have "\<exists>rest. issued w (snd (resolve_create_flow e input w)) =
                   Call_where_name_first pid name # rest \<and>
                 (\<forall>g. Call_where_group_first g \<notin> set rest) \<and>
                 (\<forall>flow_id. Call_where_others_get v flow_id \<notin> set rest)"
      by simp
    with True rv ru same show ?thesis by auto
  next
    case False
    note res_v = resolve_version_group_unset [OF falsy name False, of pid w]
    have "\<not> truthy PNone" by simp
    note res_u = resolve_version_group_unset [OF this name False, of pid w]
    from res_v have log: "snd (resolve_version_group e pid sf v w) = ?w1" by simp
    show ?thesis
    proof (cases "latest ?cands")
      case None
      then have "?cands = []" by (simp add: latest_None)
      then have nomatch: "\<not> ?match" by (simp add: filter_empty_conv)
      from res_v None have rv: "resolve_version_group e pid sf v w = (Inr (v, True), ?w1)"
        by simp
      from calls_after_resolution [OF sf pid, unfolded v, OF rv] falsy
      have calls: "issued w (snd (resolve_create_flow e input w)) =
          [Call_where_name_first pid name, Call_create_flow pid sf v ?s ?d ?k]"
        by (simp add: issued_def issue_def)
      then have "\<exists>rest. issued w (snd (resolve_create_flow e input w)) =
                   Call_where_name_first pid name # rest \<and>
                 (\<forall>g. Call_where_group_first g \<notin> set rest) \<and>
                 (\<forall>flow_id. Call_where_others_get v flow_id \<notin> set rest)"
        by simp
      with log nomatch rv calls show ?thesis by auto
    next
      case (Some f)
      from latest_Some [OF Some] have match: "?match" by auto
      from res_v Some have rv: "resolve_version_group e pid sf v w =
          (Inr (Flow_version_group_id f, False), ?w1)"
        by simp
      from res_u Some have ru: "resolve_version_group e pid sf PNone w =
          (Inr (Flow_version_group_id f, False), ?w1)"
        by simp
      from calls_after_resolution [OF sf pid, unfolded v, OF rv] obtain ids where
        "calls (snd (resolve_create_flow e input w)) =
           calls ?w1 @
           Call_create_flow pid sf (Flow_version_group_id f) ?s ?d ?k #
           (if \<not> raises e Op_create_flow \<and> truthy (Flow_version_group_id f)
            then Call_where_others_get (Flow_version_group_id f) (new_flow_id e) #
                 map Call_archive_flow ids
            else [])" ..
      then have calls: "issued w (snd (resolve_create_flow e input w)) =
           Call_where_name_first pid name #
           (Call_create_flow pid sf (Flow_version_group_id f) ?s ?d ?k #
            (if \<not> raises e Op_create_flow \<and> truthy (Flow_version_group_id f)
             then Call_where_others_get (Flow_version_group_id f) (new_flow_id e) #
                  map Call_archive_flow ids
             else []))"
        by (simp add: issued_def issue_def)
      have "\<forall>g. Call_where_group_first g \<notin>
          set (Call_create_flow pid sf (Flow_version_group_id f) ?s ?d ?k #
            (if \<not> raises e Op_create_flow \<and> truthy (Flow_version_group_id f)
             then Call_where_others_get (Flow_version_group_id f) (new_flow_id e) #
                  map Call_archive_flow ids
             else []))"
        by auto
      moreover have "\<forall>flow_id. Call_where_others_get v flow_id \<notin>
          set (Call_create_flow pid sf (Flow_version_group_id f) ?s ?d ?k #
            (if \<not> raises e Op_create_flow \<and> truthy (Flow_version_group_id f)
             then Call_where_others_get (Flow_version_group_id f) (new_flow_id e) #
                  map Call_archive_flow ids
             else []))"
        using falsy by auto
      ultimately have first: "\<exists>rest. issued w (snd (resolve_create_flow e input w)) =
                   Call_where_name_first pid name # rest \<and>
                 (\<forall>g. Call_where_group_first g \<notin> set rest) \<and>
                 (\<forall>flow_id. Call_where_others_get v flow_id \<notin> set rest)"
        using calls by blast
      have same: "resolve_create_flow e input w = resolve_create_flow e ?unset w"
        using sf pid rv ru
        by (simp add: resolve_create_flow_def subscript_def Let_def v u keys await_def)
      from log first match rv ru same show ?thesis by auto
    qed
  qed
qed

text \<open>
  The second scenario with \<^verbatim>\<open>version_group_id = ""\<close>: no flow of \<open>P1\<close> is named
  \<open>new-flow\<close>, the query by name is issued and the empty string goes to
  \<^verbatim>\<open>create_flow\<close>. The first scenario with \<^verbatim>\<open>version_group_id = ""\<close>: \<open>etl\<close> matches,
  and the run is the run without the key.
\<close>

theorem falsy_group_id_takes_name_path_witness:
  "resolve_version_group env1 (PStr ''P1'') (PDict [(''name'', PStr ''new-flow'')]) (PStr '''') store1 =
     (Inr (PStr '''', True), issue (Call_where_name_first (PStr ''P1'') (PStr ''new-flow'')) store1) \<and>
   issued store1 (snd (resolve_create_flow env1
       ((submission (PStr ''new-flow'') (PStr ''P1''))(''version_group_id'' \<mapsto> PStr '''')) store1)) =
     [Call_where_name_first (PStr ''P1'') (PStr ''new-flow''),
      Call_create_flow (PStr ''P1'') (PDict [(''name'', PStr ''new-flow'')]) (PStr '''')
        (PBool True) PNone PNone] \<and>
   resolve_create_flow env1
       ((submission (PStr ''etl'') (PStr ''P1''))(''version_group_id'' \<mapsto> PStr '''')) store1 =
     resolve_create_flow env1
       (((submission (PStr ''etl'') (PStr ''P1''))(''version_group_id'' \<mapsto> PStr ''''))
          (''version_group_id'' := None)) store1"
proof -
  let ?new = "(submission (PStr ''new-flow'') (PStr ''P1''))(''version_group_id'' \<mapsto> PStr '''')"
  let ?etl = "(submission (PStr ''etl'') (PStr ''P1''))(''version_group_id'' \<mapsto> PStr '''')"
  have falsy: "\<not> truthy (PStr '''')" by simp
  have pid: "PStr ''P1'' \<noteq> PNone" by simp
  have new: "?new ''version_group_id'' = Some (PStr '''')"
    "?new ''serialized_flow'' = Some (PDict [(''name'', PStr ''new-flow'')])"
    "dict_get (PDict [(''name'', PStr ''new-flow'')]) ''name'' = Inr (PStr ''new-flow'')"
    "?new ''project_id'' = Some (PStr ''P1'')"
    by (simp_all add: submission_def dict_get_def)
  have args: "get_default ?new ''set_schedule_active'' (PBool True) = PBool True"
    "get_default ?new ''description'' PNone = PNone"
    "get_default ?new ''idempotency_key'' PNone = PNone"
    by (simp_all add: submission_def get_default_def)
  have etl: "?etl ''version_group_id'' = Some (PStr '''')"
    "?etl ''serialized_flow'' = Some (PDict [(''name'', PStr ''etl'')])"
    "dict_get (PDict [(''name'', PStr ''etl'')]) ''name'' = Inr (PStr ''etl'')"
    "?etl ''project_id'' = Some (PStr ''P1'')"
    by (simp_all add: submission_def dict_get_def)
  have nomatch: "\<not> (\<exists>f \<in> set (flows store1).
      Flow_project_id f = PStr ''P1'' \<and> Flow_name f = PStr ''new-flow'')"
    by (simp add: F0_def F1_def R1_def store1_def)
  have match: "\<exists>f \<in> set (flows store1). Flow_project_id f = PStr ''P1'' \<and> Flow_name f = PStr ''etl''"
    by (simp add: F0_def F1_def R1_def store1_def)
  have store: "\<not> raises env1 Op_where_name_first" by (simp add: env1_def)
  from falsy_group_id_takes_name_path [of ?new, OF new(1) falsy new(2,3,4) pid, of env1 store1]
    nomatch store
  have first: "resolve_version_group env1 (PStr ''P1'') (PDict [(''name'', PStr ''new-flow'')])
        (PStr '''') store1 =
      (Inr (PStr '''', True), issue (Call_where_name_first (PStr ''P1'') (PStr ''new-flow'')) store1)"
    and second: "issued store1 (snd (resolve_create_flow env1 ?new store1)) =
      [Call_where_name_first (PStr ''P1'') (PStr ''new-flow''),
       Call_create_flow (PStr ''P1'') (PDict [(''name'', PStr ''new-flow'')]) (PStr '''')
         (PBool True) PNone PNone]"
    unfolding args by blast+
  from falsy_group_id_takes_name_path [of ?etl, OF etl(1) falsy etl(2,3,4) pid, of env1 store1]
    match
  have third: "resolve_create_flow env1 ?etl store1 =
      resolve_create_flow env1 (?etl(''version_group_id'' := None)) store1"
    by blast
  from first second third show ?thesis by (intro conjI)
qed

text \<open>
  Claim C10 as stated fails in the second scenario: with \<^verbatim>\<open>version_group_id = ""\<close> the
  resolver calls \<^verbatim>\<open>create_flow\<close> with the empty string as the version group
  identifier, where the submission without the key calls it with \<^verbatim>\<open>None\<close>.
\<close>

lemma empty_group_run:
  "resolve_create_flow env1
       ((submission (PStr ''new-flow'') (PStr ''P1''))(''version_group_id'' \<mapsto> PStr '''')) store1 =
     (Inr (PDict [(''id'', PStr ''F2'')]),
      \<lparr>flows = [F0, F1, R1,
                \<lparr>Flow_id = ''F2'', Flow_project_id = PStr ''P1'', Flow_name = PStr ''new-flow'',
                 Flow_version_group_id = PStr ''G2'', Flow_archived = False, Flow_created = 3\<rparr>],
       calls = [Call_where_name_first (PStr ''P1'') (PStr ''new-flow''),
                Call_create_flow (PStr ''P1'') (PDict [(''name'', PStr ''new-flow'')]) (PStr '''')
                  (PBool True) PNone PNone]\<rparr>)"
  by (simp add: example_defs resolver_defs store_defs)

theorem empty_group_id_passed_to_create_flow:
  "calls (snd (resolve_create_flow env1
       ((submission (PStr ''new-flow'') (PStr ''P1''))(''version_group_id'' \<mapsto> PStr '''')) store1)) =
     [Call_where_name_first (PStr ''P1'') (PStr ''new-flow''),
      Call_create_flow (PStr ''P1'') (PDict [(''name'', PStr ''new-flow'')]) (PStr '''')
        (PBool True) PNone PNone] \<and>
   calls (snd (resolve_create_flow env1 (submission (PStr ''new-flow'') (PStr ''P1'')) store1)) =
     [Call_where_name_first (PStr ''P1'') (PStr ''new-flow''),
      Call_create_flow (PStr ''P1'') (PDict [(''name'', PStr ''new-flow'')]) PNone
        (PBool True) PNone PNone] \<and>
   calls (snd (resolve_create_flow env1
       ((submission (PStr ''new-flow'') (PStr ''P1''))(''version_group_id'' \<mapsto> PStr '''')) store1)) \<noteq>
     calls (snd (resolve_create_flow env1 (submission (PStr ''new-flow'') (PStr ''P1'')) store1))"
  by (simp add: empty_group_run new_flow_run)



section \<open>A failure while archiving\<close>

lemma archive_other_versions_stops:
  assumes group: "truthy g" and query: "\<not> raises e Op_where_others_get"
    and others: "filter (\<lambda>f. Flow_version_group_id f = g \<and> Flow_id f \<noteq> flow_id \<and>
                    Flow_archived f = False) (flows w) = before @ a # after"
    and ok: "\<forall>v \<in> set before. \<not> raises e (Op_archive_flow (Flow_id v))"
    and fails: "raises e (Op_archive_flow (Flow_id a))"
  shows "archive_other_versions e g flow_id w =
           (Inl (StoreFailure ''archive_flow''),
            w\<lparr>flows := map (\<lambda>f. if Flow_id f \<in> Flow_id ` set before
                               then f\<lparr>Flow_archived := True\<rparr> else f) (flows w),
              calls := calls w @ Call_where_others_get g flow_id #
                         map (\<lambda>v. Call_archive_flow (Flow_id v)) (before @ [a])\<rparr>)"
  using group query others
  by (simp add: archive_other_versions_def await_def Flow_where_others_get_def
      archive_versions_stops [OF ok fails] issue_def)

text \<open>
  Claim C2, as amended. The other unarchived versions are archived one after the other,
  in the order the store returns them. When archiving one of them fails, the failure
  is raised to the caller of \<^verbatim>\<open>resolve_create_flow\<close> at once: the versions before it
  are archived, no call is made for the versions after it, which stay as they were,
  and the new flow stays in the store.
\<close>

theorem archiving_stops_at_first_failure:
  assumes sf: "input ''serialized_flow'' = Some sf"
    and pid: "input ''project_id'' = Some pid" "pid \<noteq> PNone"
    and res: "resolve_version_group e pid sf (get_default input ''version_group_id'' PNone) w =
                (Inr (g, n), w1)"
    and group: "truthy g"
    and store: "\<not> raises e Op_create_flow" "\<not> raises e Op_where_others_get"
    and others: "filter (\<lambda>f. Flow_version_group_id f = g \<and> Flow_id f \<noteq> new_flow_id e \<and>
                    Flow_archived f = False) (flows w) = before @ a # after"
    and ok: "\<forall>v \<in> set before. \<not> raises e (Op_archive_flow (Flow_id v))"
    and fails: "raises e (Op_archive_flow (Flow_id a))"
  shows "resolve_create_flow e input w =
           (Inl (StoreFailure ''archive_flow''),
            w1\<lparr>flows := map (\<lambda>f. if Flow_id f \<in> Flow_id ` set before
                                then f\<lparr>Flow_archived := True\<rparr> else f) (flows w)
                         @ [new_flow e pid sf g],
               calls := calls w1 @
                 Call_create_flow pid sf g (get_default input ''set_schedule_active'' (PBool True))
                   (get_default input ''description'' PNone)
                   (get_default input ''idempotency_key'' PNone) #
                 Call_where_others_get g (new_flow_id e) #
                 map (\<lambda>v. Call_archive_flow (Flow_id v)) (before @ [a])\<rparr>)"
proof -
  let ?s = "get_default input ''set_schedule_active'' (PBool True)"
  let ?d = "get_default input ''description'' PNone"
  let ?k = "get_default input ''idempotency_key'' PNone"
  let ?w2 = "w1\<lparr>flows := flows w @ [new_flow e pid sf g],
                 calls := calls w1 @ [Call_create_flow pid sf g ?s ?d ?k]\<rparr>"
  have w1: "flows w1 = flows w" by (rule resolve_version_group_flows [OF res])
  have cr: "create_flow e pid sf g ?s ?d ?k w1 = (Inr (new_flow_id e), ?w2)"
    using store(1) w1 by (simp add: create_flow_def issue_def)
  have others2: "filter (\<lambda>f. Flow_version_group_id f = g \<and> Flow_id f \<noteq> new_flow_id e \<and>
                    Flow_archived f = False) (flows ?w2) = before @ a # after"
    using others by (simp add: new_flow_def)
  have "set before \<subseteq> set (filter (\<lambda>f. Flow_version_group_id f = g \<and>
            Flow_id f \<noteq> new_flow_id e \<and> Flow_archived f = False) (flows w))"
    unfolding others by auto
  then have "\<forall>v \<in> set before. Flow_id v \<noteq> new_flow_id e" by auto
  then have kept: "Flow_id (new_flow e pid sf g) \<notin> Flow_id ` set before"
    by (auto simp: new_flow_def)
  from archive_other_versions_stops [OF group store(2) others2 ok fails]
  have "archive_other_versions e g (new_flow_id e) ?w2 =
           (Inl (StoreFailure ''archive_flow''),
            w1\<lparr>flows := map (\<lambda>f. if Flow_id f \<in> Flow_id ` set before
                                then f\<lparr>Flow_archived := True\<rparr> else f) (flows w)
                         @ [new_flow e pid sf g],
               calls := calls w1 @ Call_create_flow pid sf g ?s ?d ?k #
                 Call_where_others_get g (new_flow_id e) #
                 map (\<lambda>v. Call_archive_flow (Flow_id v)) (before @ [a])\<rparr>)"
    using kept by simp
  with sf pid res cr show ?thesis
    by (simp add: resolve_create_flow_def subscript_def Let_def await_def)
qed

text \<open>
  The first scenario when archiving \<open>R1\<close> fails: \<open>F1\<close>, which comes first, is
  archived, the error reaches the caller, \<open>R1\<close> stays unarchived beside the new \<open>F2\<close>.
\<close>

theorem archiving_stops_at_first_failure_witness:
  "resolve_create_flow env_R1_fails (submission (PStr ''etl'') (PStr ''P1'')) store1 =
     (Inl (StoreFailure ''archive_flow''),
      \<lparr>flows = [F0, F1\<lparr>Flow_archived := True\<rparr>, R1,
                \<lparr>Flow_id = ''F2'', Flow_project_id = PStr ''P1'', Flow_name = PStr ''etl'',
                 Flow_version_group_id = PStr ''G1'', Flow_archived = False, Flow_created = 3\<rparr>],
       calls = [Call_where_name_first (PStr ''P1'') (PStr ''etl''),
                Call_create_flow (PStr ''P1'') (PDict [(''name'', PStr ''etl'')]) (PStr ''G1'')
                  (PBool True) PNone PNone,
                Call_where_others_get (PStr ''G1'') ''F2'',
                Call_archive_flow ''F1'', Call_archive_flow ''R1'']\<rparr>)"
proof -
  let ?input = "submission (PStr ''etl'') (PStr ''P1'')"
  let ?sf = "PDict [(''name'', PStr ''etl'')]"
  have sf: "?input ''serialized_flow'' = Some ?sf"
    and pid: "?input ''project_id'' = Some (PStr ''P1'')" "PStr ''P1'' \<noteq> PNone"
    by (simp_all add: submission_def)
  have args: "get_default ?input ''version_group_id'' PNone = PNone"
    "get_default ?input ''set_schedule_active'' (PBool True) = PBool True"
    "get_default ?input ''description'' PNone = PNone"
    "get_default ?input ''idempotency_key'' PNone = PNone"
    by (simp_all add: submission_def get_default_def)
  have res: "resolve_version_group env_R1_fails (PStr ''P1'') ?sf PNone store1 =
     (Inr (PStr ''G1'', False), issue (Call_where_name_first (PStr ''P1'') (PStr ''etl'')) store1)"
    by (simp add: example_defs env_R1_fails_def resolver_defs store_defs)
  have group: "truthy (PStr ''G1'')" by simp
  have store: "\<not> raises env_R1_fails Op_create_flow" "\<not> raises env_R1_fails Op_where_others_get"
    by (simp_all add: env_R1_fails_def env1_def)
  have others: "filter (\<lambda>f. Flow_version_group_id f = PStr ''G1'' \<and>
      Flow_id f \<noteq> new_flow_id env_R1_fails \<and> Flow_archived f = False) (flows store1) = [F1] @ R1 # []"
    by (simp add: example_defs env_R1_fails_def)
  have ok: "\<forall>v \<in> set [F1]. \<not> raises env_R1_fails (Op_archive_flow (Flow_id v))"
    by (simp add: example_defs env_R1_fails_def)
  have fails: "raises env_R1_fails (Op_archive_flow (Flow_id R1))"
    by (simp add: example_defs env_R1_fails_def)
  from archiving_stops_at_first_failure
    [of ?input, OF sf pid, unfolded args, OF res group store others ok fails]
  show ?thesis
    by (simp add: example_defs env_R1_fails_def new_flow_def dict_get_def issue_def)
qed

text \<open>
  Claim C2 as stated fails when archiving \<open>F1\<close> fails: archiving \<open>R1\<close> would succeed,
  but it is never attempted, and \<open>R1\<close> ends unarchived.
\<close>

theorem later_version_not_attempted:
  "\<not> raises env_F1_fails (Op_archive_flow ''R1'') \<and>
   resolve_create_flow env_F1_fails (submission (PStr ''etl'') (PStr ''P1'')) store1 =
     (Inl (StoreFailure ''archive_flow''),
      \<lparr>flows = [F0, F1, R1,
                \<lparr>Flow_id = ''F2'', Flow_project_id = PStr ''P1'', Flow_name = PStr ''etl'',
                 Flow_version_group_id = PStr ''G1'', Flow_archived = False, Flow_created = 3\<rparr>],
       calls = [Call_where_name_first (PStr ''P1'') (PStr ''etl''),
                Call_create_flow (PStr ''P1'') (PDict [(''name'', PStr ''etl'')]) (PStr ''G1'')
                  (PBool True) PNone PNone,
                Call_where_others_get (PStr ''G1'') ''F2'',
                Call_archive_flow ''F1'']\<rparr>) \<and>
   Flow_archived R1 = False"
  by (simp add: example_defs env_F1_fails_def resolver_defs store_defs)



section \<open>Preconditions of the pass-through resolvers\<close>

lemmas pass_through_defs = resolve_register_tasks_def resolve_register_edges_def
  resolve_delete_flow_def resolve_archive_flow_def resolve_update_flow_project_def
  resolve_disable_heartbeat_for_flow_def resolve_enable_heartbeat_for_flow_def
  resolve_enable_flow_lazarus_process_def resolve_disable_flow_lazarus_process_def
  resolve_set_schedule_active_def resolve_set_schedule_inactive_def

text \<open>
  Claim C9, as amended. Given a \<^verbatim>\<open>flow_id\<close> key, whatever its value:
  \<^item> delete, archive, update project and the two schedule toggles check nothing; they
    delegate at once and return the result of the operation as \<open>{success: r}\<close> or
    \<open>{id: r}\<close>;
  \<^item> register tasks and register edges reject only \<^verbatim>\<open>None\<close>, with
    \<^verbatim>\<open>ValueError("Invalid flow ID")\<close> before delegating, and after the operation return
    \<open>{success: True}\<close> whatever it returned;
  \<^item> the heartbeat and lazarus toggles reject every falsy \<^verbatim>\<open>flow_id\<close> with
    \<^verbatim>\<open>ValueError("Invalid flow ID.")\<close> before any access to the store, fail in the same
    way when the flow is not found, and otherwise delegate to the operation on the flow
    group and return its result as \<open>{success: r}\<close>.
\<close>

theorem pass_through_preconditions:
  assumes fid: "input ''flow_id'' = Some flow_id"
  shows
    "resolve_delete_flow operation input w = delegated ''success'' (operation flow_id w) \<and>
     resolve_archive_flow operation input w = delegated ''success'' (operation flow_id w) \<and>
     resolve_set_schedule_active operation input w = delegated ''success'' (operation flow_id w) \<and>
     resolve_set_schedule_inactive operation input w = delegated ''success'' (operation flow_id w) \<and>
     (\<forall>project_id. input ''project_id'' = Some project_id \<longrightarrow>
        resolve_update_flow_project update input w =
          delegated ''id'' (update flow_id project_id w)) \<and>
     (\<forall>tasks. input ''serialized_tasks'' = Some tasks \<longrightarrow>
        resolve_register_tasks register input w =
          (if flow_id = PNone then (Inl (ValueError ''Invalid flow ID''), w)
           else delegated ''success''
                  (case register flow_id PNone tasks w of
                     (Inl err, w') \<Rightarrow> (Inl err, w')
                   | (Inr r, w') \<Rightarrow> (Inr (PBool True), w')))) \<and>
     (\<forall>edges. input ''serialized_edges'' = Some edges \<longrightarrow>
        resolve_register_edges register input w =
          (if flow_id = PNone then (Inl (ValueError ''Invalid flow ID''), w)
           else delegated ''success''
                  (case register flow_id PNone edges w of
                     (Inl err, w') \<Rightarrow> (Inl err, w')
                   | (Inr r, w') \<Rightarrow> (Inr (PBool True), w')))) \<and>
     (\<forall>resolve \<in> {resolve_disable_heartbeat_for_flow, resolve_enable_heartbeat_for_flow,
                   resolve_enable_flow_lazarus_process, resolve_disable_flow_lazarus_process}.
        resolve where_id_first operation input w =
          (if \<not> truthy flow_id then (Inl (ValueError ''Invalid flow ID.''), w)
           else case where_id_first flow_id w of
                  (Inl err, w') \<Rightarrow> (Inl err, w')
                | (Inr None, w') \<Rightarrow> (Inl (ValueError ''Invalid flow ID.''), w')
                | (Inr (Some flow_group_id), w') \<Rightarrow>
                    delegated ''success'' (operation flow_group_id w')))"
  using fid
  by (auto simp: pass_through_defs subscript_def await_def return_def raise_def delegated_def
      split: prod.splits sum.splits option.splits)

text \<open>
  An empty \<^verbatim>\<open>flow_id\<close> stops a heartbeat toggle before the store is touched, a null one
  stops the registration of tasks, and deleting \<open>F1\<close> hands \<open>F1\<close> to the operation.
\<close>

theorem pass_through_preconditions_witness:
  "resolve_disable_heartbeat_for_flow (\<lambda>flow_id. return (Some (PStr ''FG1''))) recording
     [''flow_id'' \<mapsto> PStr ''''] [] = (Inl (ValueError ''Invalid flow ID.''), []) \<and>
   resolve_register_tasks (\<lambda>flow_id tenant_id tasks. recording flow_id)
     [''flow_id'' \<mapsto> PNone, ''serialized_tasks'' \<mapsto> PDict []] [] =
     (Inl (ValueError ''Invalid flow ID''), []) \<and>
   resolve_delete_flow recording [''flow_id'' \<mapsto> PStr ''F1''] [] =
     (Inr (PDict [(''success'', PBool True)]), [PStr ''F1''])"
proof -
  have empty: "[''flow_id'' \<mapsto> PStr ''''] ''flow_id'' = Some (PStr '''')" by simp
  have null: "[''flow_id'' \<mapsto> PNone, ''serialized_tasks'' \<mapsto> PDict []] ''flow_id'' = Some PNone"
    by simp
  have given: "[''flow_id'' \<mapsto> PStr ''F1''] ''flow_id'' = Some (PStr ''F1'')" by simp
  from pass_through_preconditions
         [of "[''flow_id'' \<mapsto> PStr '''']" "PStr ''''" recording "[]" _ _
             "\<lambda>flow_id. return (Some (PStr ''FG1''))", OF empty]
  have toggle: "resolve_disable_heartbeat_for_flow (\<lambda>flow_id. return (Some (PStr ''FG1''))) recording
     [''flow_id'' \<mapsto> PStr ''''] [] = (Inl (ValueError ''Invalid flow ID.''), [])"
    by simp
  from pass_through_preconditions
         [of "[''flow_id'' \<mapsto> PNone, ''serialized_tasks'' \<mapsto> PDict []]" PNone _ "[]" _
             "\<lambda>flow_id tenant_id tasks. recording flow_id", OF null]
  have register: "resolve_register_tasks (\<lambda>flow_id tenant_id tasks. recording flow_id)
     [''flow_id'' \<mapsto> PNone, ''serialized_tasks'' \<mapsto> PDict []] [] =
     (Inl (ValueError ''Invalid flow ID''), [])"
    by simp
  from pass_through_preconditions
         [of "[''flow_id'' \<mapsto> PStr ''F1'']" "PStr ''F1''" recording "[]", OF given]
  have delete: "resolve_delete_flow recording [''flow_id'' \<mapsto> PStr ''F1''] [] =
     (Inr (PDict [(''success'', PBool True)]), [PStr ''F1''])"
    by (simp add: delegated_def recording_def)
  from toggle register delete show ?thesis by (intro conjI)
qed

text \<open>
  Claim C9 as stated fails: deleting with the empty \<^verbatim>\<open>flow_id\<close> and activating the
  schedule with \<^verbatim>\<open>flow_id = None\<close> reach the operation, and the registration of tasks
  accepts the empty \<^verbatim>\<open>flow_id\<close> and answers \<open>{success: True}\<close> for an operation that
  returned \<^verbatim>\<open>False\<close>.
\<close>

theorem empty_flow_id_delegated:
  "resolve_delete_flow recording [''flow_id'' \<mapsto> PStr ''''] [] =
     (Inr (PDict [(''success'', PBool True)]), [PStr '''']) \<and>
   resolve_set_schedule_active recording [''flow_id'' \<mapsto> PNone] [] =
     (Inr (PDict [(''success'', PBool True)]), [PNone]) \<and>
   resolve_register_tasks (\<lambda>flow_id tenant_id tasks w. (Inr (PBool False), w @ [flow_id]))
     [''flow_id'' \<mapsto> PStr '''', ''serialized_tasks'' \<mapsto> PDict []] [] =
     (Inr (PDict [(''success'', PBool True)]), [PStr ''''])"
  by (simp add: pass_through_defs subscript_def await_def return_def raise_def recording_def)



end
